theory Spec2Isabelle
  imports Main
begin

section \<open>A command line todo application (cli.py)\<close>

text \<open>
  The program keeps a list of todo items in one file, in one of three storage formats
  chosen by the configuration (\<open>json\<close>, \<open>csv\<close>, anything else is plain text), and offers
  the commands \<open>signin\<close>, \<open>hello\<close>, \<open>add_todo\<close>, \<open>delete_todo\<close> and \<open>list_todos\<close>.

  The embedding passes the state of the world explicitly: the configuration, the global
  \<open>current_file_path\<close>, the files, the log and the lines echoed to the terminal.
  An exception that leaves a command is a value of \<open>outcome\<close>.

  The interpreter is CPython 3.11 on a 64-bit POSIX system whose files are UTF-8.
\<close>

subsection \<open>Strings\<close>

text \<open>
  A Python string is a sequence of code points, lone surrogates included. \<open>lit\<close> turns
  the text of a literal of the source into one.
\<close>

type_synonym pystr = "nat list"

definition lit :: "string \<Rightarrow> pystr" where
  "lit s = map of_char s"

abbreviation TAB :: nat where "TAB \<equiv> 9"
abbreviation LF :: nat where "LF \<equiv> 10"
abbreviation CR :: nat where "CR \<equiv> 13"
abbreviation DQUOTE :: nat where "DQUOTE \<equiv> 34"
abbreviation SQUOTE :: nat where "SQUOTE \<equiv> 39"
abbreviation BACKSLASH :: nat where "BACKSLASH \<equiv> 92"

definition high_surrogate :: "nat \<Rightarrow> bool" where
  "high_surrogate c \<longleftrightarrow> 0xD800 \<le> c \<and> c \<le> 0xDBFF"

definition low_surrogate :: "nat \<Rightarrow> bool" where
  "low_surrogate c \<longleftrightarrow> 0xDC00 \<le> c \<and> c \<le> 0xDFFF"

text \<open>UTF-8 encodes every code point but the surrogates.\<close>

definition encodable :: "pystr \<Rightarrow> bool" where
  "encodable s = list_all (\<lambda>c. \<not> (0xD800 \<le> c \<and> c \<le> 0xDFFF)) s"

subsection \<open>Python values\<close>

text \<open>
  The exceptions that occur. All of them derive from \<open>Exception\<close> but the last, which
  stands for the ones that do not.
\<close>

datatype py_error =
    FileNotFoundError
  | ParseError
  | TypeError
  | KeyError
  | IndexError
  | OverflowError
  | ValueError
  | AttributeError
  | UnicodeEncodeError
  | KeyboardInterrupt

fun is_Exception :: "py_error \<Rightarrow> bool" where
  "is_Exception KeyboardInterrupt = False"
| "is_Exception e = True"

text \<open>
  A \<open>dict\<close> with string keys and string values, in insertion order. A todo in memory is
  either such a dict (json, csv) or a plain string (text lines).
\<close>

type_synonym pydict = "(pystr \<times> pystr) list"

datatype todo = Str pystr | Dict pydict

text \<open>\<open>todo[key]\<close>: a string cannot be indexed by a string, a dict needs the key.\<close>

fun getitem :: "todo \<Rightarrow> pystr \<Rightarrow> py_error + pystr" where
  "getitem (Str s) key = Inl TypeError"
| "getitem (Dict d) key = (case map_of d key of None \<Rightarrow> Inl KeyError | Some v \<Rightarrow> Inr v)"

text \<open>\<open>d[key] = value\<close>: a key that is there keeps its place.\<close>

fun setitem :: "pydict \<Rightarrow> pystr \<Rightarrow> pystr \<Rightarrow> pydict" where
  "setitem [] key v = [(key, v)]"
| "setitem ((k, w) # d) key v = (if k = key then (k, v) # d else (k, w) # setitem d key v)"

text \<open>
  \<open>list.pop(idx)\<close>: the index is converted to a machine integer first, which raises
  OverflowError outside \<open>-2^63 .. 2^63 - 1\<close>; a negative index counts from the end; an
  index outside \<open>-len .. len - 1\<close> raises IndexError. The model returns the list that
  remains.
\<close>

definition py_pop :: "'a list \<Rightarrow> int \<Rightarrow> py_error + 'a list" where
  "py_pop xs idx =
     (if idx < - (2 ^ 63) \<or> 2 ^ 63 \<le> idx then Inl OverflowError
      else
        (let n = int (length xs);
             j = (if idx < 0 then idx + n else idx)
         in if j < 0 \<or> n \<le> j then Inl IndexError
            else Inr (take (nat j) xs @ drop (Suc (nat j)) xs)))"

subsection \<open>Text: decimal numbers, \<open>str\<close>, \<open>repr\<close>, line splitting\<close>

definition digit_char :: "nat \<Rightarrow> char" where
  "digit_char d = ''0123456789abcdef'' ! d"

fun show_nat :: "nat \<Rightarrow> string" where
  "show_nat n = (if n < 10 then [digit_char n] else show_nat (n div 10) @ [digit_char (n mod 10)])"

declare show_nat.simps [simp del]

definition show_int :: "int \<Rightarrow> string" where
  "show_int i = (if i < 0 then CHR ''-'' # show_nat (nat (- i)) else show_nat (nat i))"

text \<open>
  \<open>repr\<close> of a string: single quotes unless the string has a single quote and no double
  quote; the quote and the backslash are escaped, tab, newline and return are written
  \<open>\t\<close>, \<open>\n\<close>, \<open>\r\<close>, and every other character that is not printable is written
  \<open>\xhh\<close>, \<open>\uhhhh\<close> or \<open>\Uhhhhhhhh\<close>. Which characters above ASCII are printable is a
  table of the interpreter, taken as the parameter \<open>printable\<close>.
\<close>

fun hex :: "nat \<Rightarrow> nat \<Rightarrow> string" where
  "hex 0 n = []"
| "hex (Suc k) n = hex k (n div 16) @ [digit_char (n mod 16)]"

definition repr_char :: "(nat \<Rightarrow> bool) \<Rightarrow> nat \<Rightarrow> nat \<Rightarrow> pystr" where
  "repr_char printable quote c =
     (if c = quote \<or> c = BACKSLASH then [BACKSLASH, c]
      else if c = TAB then lit [CHR 0x5C, CHR ''t'']
      else if c = LF then lit [CHR 0x5C, CHR ''n'']
      else if c = CR then lit [CHR 0x5C, CHR ''r'']
      else if c < 32 \<or> c = 127 then lit ([CHR 0x5C, CHR ''x''] @ hex 2 c)
      else if c < 127 then [c]
      else if printable c then [c]
      else if c \<le> 0xFF then lit ([CHR 0x5C, CHR ''x''] @ hex 2 c)
      else if c \<le> 0xFFFF then lit ([CHR 0x5C, CHR ''u''] @ hex 4 c)
      else lit ([CHR 0x5C, CHR ''U''] @ hex 8 c))"

definition py_repr :: "(nat \<Rightarrow> bool) \<Rightarrow> pystr \<Rightarrow> pystr" where
  "py_repr printable s =
     (let quote = (if SQUOTE \<in> set s \<and> DQUOTE \<notin> set s then DQUOTE else SQUOTE)
      in quote # concat (map (repr_char printable quote) s) @ [quote])"

fun join :: "pystr \<Rightarrow> pystr list \<Rightarrow> pystr" where
  "join sep [] = []"
| "join sep [x] = x"
| "join sep (x # y # xs) = x @ sep @ join sep (y # xs)"

definition dict_repr :: "(nat \<Rightarrow> bool) \<Rightarrow> pydict \<Rightarrow> pystr" where
  "dict_repr printable d =
     lit ''{''
       @ join (lit '', '')
           (map (\<lambda>(k, v). py_repr printable k @ lit '': '' @ py_repr printable v) d)
       @ lit ''}''"

text \<open>\<open>f"{todo}"\<close>: a string is itself, a dict is its \<open>repr\<close>.\<close>

fun py_str :: "(nat \<Rightarrow> bool) \<Rightarrow> todo \<Rightarrow> pystr" where
  "py_str printable (Str s) = s"
| "py_str printable (Dict d) = dict_repr printable d"

text \<open>
  Reading a file opened in text mode turns \<open>\r\n\<close> and \<open>\r\<close> into \<open>\n\<close>
  (universal newlines); writing leaves \<open>\n\<close> as it is.
\<close>

fun universal_newlines :: "pystr \<Rightarrow> pystr" where
  "universal_newlines [] = []"
| "universal_newlines [c] = [if c = CR then LF else c]"
| "universal_newlines (c # d # cs) =
     (if c = CR \<and> d = LF then LF # universal_newlines cs
      else if c = CR then LF # universal_newlines (d # cs)
      else c # universal_newlines (d # cs))"

text \<open>
  \<open>str.splitlines()\<close>: the line boundaries are \<open>\n\<close>, \<open>\r\<close>, \<open>\r\n\<close>, \<open>\v\<close>, \<open>\f\<close>,
  \<open>\x1c\<close>, \<open>\x1d\<close>, \<open>\x1e\<close>, \<open>\x85\<close>, \<open>U+2028\<close> and \<open>U+2029\<close>. The boundaries are
  dropped and a final boundary does not open another line.
\<close>

definition is_linebreak :: "nat \<Rightarrow> bool" where
  "is_linebreak c \<longleftrightarrow> c \<in> set [0x0A, 0x0B, 0x0C, 0x0D, 0x1C, 0x1D, 0x1E, 0x85, 0x2028, 0x2029]"

fun splitlines :: "pystr \<Rightarrow> pystr list" where
  "splitlines [] = []"
| "splitlines [c] = (if is_linebreak c then [[]] else [[c]])"
| "splitlines (c # d # cs) =
     (if c = CR \<and> d = LF then [] # splitlines cs
      else if is_linebreak c then [] # splitlines (d # cs)
      else (case splitlines (d # cs) of
              [] \<Rightarrow> [[c]]
            | l # ls \<Rightarrow> (c # l) # ls))"

subsection \<open>What \<open>json.load\<close> makes of what \<open>json.dump\<close> wrote\<close>

text \<open>
  \<open>json.dump\<close> writes every code point above ASCII as \<open>\uXXXX\<close> escapes, a code point
  above \<open>0xFFFF\<close> as the escapes of its two surrogates. \<open>json.load\<close> reads a high
  surrogate escape that is followed by a low surrogate escape as one code point, so
  two such surrogates that stood side by side in a string come back as one character.
  A key that occurs again in an object replaces the value of the first occurrence.
\<close>

fun merge_surrogates :: "pystr \<Rightarrow> pystr" where
  "merge_surrogates [] = []"
| "merge_surrogates [c] = [c]"
| "merge_surrogates (h # l # cs) =
     (if high_surrogate h \<and> low_surrogate l
      then (0x10000 + (h - 0xD800) * 0x400 + (l - 0xDC00)) # merge_surrogates cs
      else h # merge_surrogates (l # cs))"

text \<open>A high surrogate directly followed by a low one, somewhere in the string.\<close>

fun surrogate_pair :: "pystr \<Rightarrow> bool" where
  "surrogate_pair (h # l # cs) =
     (if high_surrogate h \<and> low_surrogate l then True else surrogate_pair (l # cs))"
| "surrogate_pair cs = False"

definition json_object :: "pydict \<Rightarrow> pydict" where
  "json_object d =
     foldl (\<lambda>acc (k, v). setitem acc (merge_surrogates k) (merge_surrogates v)) [] d"

fun json_value :: "todo \<Rightarrow> todo" where
  "json_value (Str s) = Str (merge_surrogates s)"
| "json_value (Dict d) = Dict (json_object d)"

subsection \<open>Configuration, files and the state of the world\<close>

text \<open>
  \<open>config.ini\<close> provides \<open>FileName\<close> and \<open>StorageType\<close> in its \<open>DEFAULT\<close> section.
\<close>

record settings =
  FileName :: pystr
  StorageType :: pystr

text \<open>
  The json and csv codecs belong to the standard library, so a file that was written in
  one of these formats is held by what was written: a json file by the list given to
  \<open>json.dump\<close>, a csv file by the row dicts under its header, a text file by its
  characters. \<open>Other\<close> is any other file.
\<close>

datatype file_content =
    JsonFile "todo list"
  | CsvFile "pydict list"
  | TxtFile pystr
  | Other nat

text \<open>
  What this development does not fix about the platform is a parameter of the state:
  \<^item> what the reader of a format gets from a file that is not held in that format
    (\<open>None\<close>: the reader raises), since that depends on the bytes of the file;
  \<^item> which characters above ASCII \<open>repr\<close> takes as printable;
  \<^item> which lines with a character that UTF-8 cannot encode the terminal still accepts
    (that depends on the error handler of the standard output).
\<close>

record environment =
  foreign_json :: "file_content \<Rightarrow> todo list option"
  foreign_csv :: "file_content \<Rightarrow> pydict list option"
  foreign_text :: "file_content \<Rightarrow> pystr option"
  isprintable :: "nat \<Rightarrow> bool"
  lenient_stdout :: "pystr \<Rightarrow> bool"

datatype log_entry =
    INFO pystr
  | ERROR pystr
  | ERROR_exc pystr py_error

record state =
  config :: settings
  env :: environment
  current_file_path :: "pystr option"
  fs :: "pystr \<Rightarrow> file_content option"
  logged :: "log_entry list"
  stdout :: "pystr list"

definition logging_info :: "pystr \<Rightarrow> state \<Rightarrow> state" where
  "logging_info msg s = s\<lparr>logged := logged s @ [INFO msg]\<rparr>"

definition logging_error :: "pystr \<Rightarrow> state \<Rightarrow> state" where
  "logging_error msg s = s\<lparr>logged := logged s @ [ERROR msg]\<rparr>"

definition logging_error_exc :: "pystr \<Rightarrow> py_error \<Rightarrow> state \<Rightarrow> state" where
  "logging_error_exc msg e s = s\<lparr>logged := logged s @ [ERROR_exc msg e]\<rparr>"

text \<open>
  \<open>click.echo\<close> writes the line to the standard output, which raises on a character it
  cannot encode unless its error handler lets the line through.
\<close>

definition click_echo :: "pystr \<Rightarrow> state \<Rightarrow> py_error + state" where
  "click_echo line s =
     (if encodable line \<or> lenient_stdout (env s) line
      then Inr (s\<lparr>stdout := stdout s @ [line]\<rparr>)
      else Inl UnicodeEncodeError)"

text \<open>\<open>current_file_path if current_file_path else config['DEFAULT']['FileName']\<close>\<close>

definition filename :: "state \<Rightarrow> pystr" where
  "filename s =
     (case current_file_path s of
        None \<Rightarrow> FileName (config s)
      | Some p \<Rightarrow> if p = [] then FileName (config s) else p)"

definition PRIORITIES :: "(pystr \<times> pystr) list" where
  "PRIORITIES =
     [(lit ''o'', lit ''Optional''),
      (lit ''l'', lit ''Low''),
      (lit ''m'', lit ''Medium''),
      (lit ''h'', lit ''High''),
      (lit ''c'', lit ''Crucial'')]"

subsection \<open>\<open>load_todos\<close>\<close>

text \<open>
  The csv reader raises on a field of more than 131072 characters. A file holds no
  character that UTF-8 cannot encode.
\<close>

definition csv_readable :: "pydict list \<Rightarrow> bool" where
  "csv_readable rows =
     list_all (list_all (\<lambda>(k, v). length k \<le> 131072 \<and> length v \<le> 131072
                                    \<and> encodable k \<and> encodable v)) rows"

definition decode :: "environment \<Rightarrow> pystr \<Rightarrow> file_content \<Rightarrow> py_error + todo list" where
  "decode e format c =
     (if format = lit ''json'' then
        (case c of
           JsonFile todos \<Rightarrow> Inr (map json_value todos)
         | _ \<Rightarrow> (case foreign_json e c of None \<Rightarrow> Inl ParseError | Some todos \<Rightarrow> Inr todos))
      else if format = lit ''csv'' then
        (case (case c of CsvFile rows \<Rightarrow> Some rows | _ \<Rightarrow> foreign_csv e c) of
           None \<Rightarrow> Inl ParseError
         | Some rows \<Rightarrow> if csv_readable rows then Inr (map Dict rows) else Inl ParseError)
      else
        (case (case c of TxtFile chars \<Rightarrow> Some chars | _ \<Rightarrow> foreign_text e c) of
           None \<Rightarrow> Inl ParseError
         | Some chars \<Rightarrow>
             if encodable chars then Inr (map Str (splitlines (universal_newlines chars)))
             else Inl ParseError))"

text \<open>The body of the \<open>try\<close>: opening a file that does not exist raises.\<close>

definition read_todos :: "environment \<Rightarrow> pystr \<Rightarrow> file_content option \<Rightarrow> py_error + todo list" where
  "read_todos e format f =
     (case f of None \<Rightarrow> Inl FileNotFoundError | Some c \<Rightarrow> decode e format c)"

text \<open>
  The handlers: \<open>except FileNotFoundError\<close>, then \<open>except Exception\<close>; any other
  exception would leave the function.
\<close>

definition load_todos :: "pystr \<Rightarrow> state \<Rightarrow> (py_error + todo list) \<times> state" where
  "load_todos format s =
     (case read_todos (env s) format (fs s (filename s)) of
        Inr todos \<Rightarrow> (Inr todos, s)
      | Inl e \<Rightarrow>
          if e = FileNotFoundError
          then (Inr [], logging_info (lit ''No todo file found, starting a new one.'') s)
          else if is_Exception e
          then (Inr [], logging_error_exc (lit ''Failed to load todos: '') e s)
          else (Inl e, s))"

subsection \<open>\<open>save_todos\<close>\<close>

definition fieldnames :: "pystr list" where
  "fieldnames = [lit ''name'', lit ''description'', lit ''priority'']"

text \<open>
  \<open>csv.DictWriter\<close> turns a row dict into the list of its values under the field names,
  an absent field being the empty string; a key that is no field name raises ValueError
  and a row that is no dict has no \<open>keys\<close>. Writing the row to the file raises on a
  character that UTF-8 cannot encode.
\<close>

fun dict_to_list :: "todo \<Rightarrow> py_error + pystr list" where
  "dict_to_list (Str s) = Inl AttributeError"
| "dict_to_list (Dict d) =
     (if list_all (\<lambda>k. k \<in> set fieldnames) (map fst d)
      then Inr (map (\<lambda>k. case map_of d k of None \<Rightarrow> [] | Some v \<Rightarrow> v) fieldnames)
      else Inl ValueError)"

definition writerow :: "todo \<Rightarrow> py_error + pystr list" where
  "writerow t =
     (case dict_to_list t of
        Inl e \<Rightarrow> Inl e
      | Inr r \<Rightarrow> if list_all encodable r then Inr r else Inl UnicodeEncodeError)"

text \<open>
  \<open>writerows\<close> writes row after row and stops at the first row that raises; the rows
  before it are in the file.
\<close>

fun writerows :: "todo list \<Rightarrow> pystr list list \<times> py_error option" where
  "writerows [] = ([], None)"
| "writerows (t # ts) =
     (case writerow t of
        Inl e \<Rightarrow> ([], Some e)
      | Inr r \<Rightarrow> (case writerows ts of (rs, e) \<Rightarrow> (r # rs, e)))"

text \<open>
  The loop of the text format: \<open>f.write(f"{todo}\n")\<close> raises on a character that UTF-8
  cannot encode; the lines before it are in the file.
\<close>

fun writelines :: "(nat \<Rightarrow> bool) \<Rightarrow> todo list \<Rightarrow> pystr \<times> py_error option" where
  "writelines printable [] = ([], None)"
| "writelines printable (t # ts) =
     (if encodable (py_str printable t)
      then (case writelines printable ts of (chars, e) \<Rightarrow> (py_str printable t @ [LF] @ chars, e))
      else ([], Some UnicodeEncodeError))"

definition write_file :: "file_content \<Rightarrow> state \<Rightarrow> state" where
  "write_file c s = s\<lparr>fs := (fs s)(filename s \<mapsto> c)\<rparr>"

definition save_todos :: "todo list \<Rightarrow> pystr \<Rightarrow> state \<Rightarrow> state" where
  "save_todos todos format s =
     (if format = lit ''json'' then write_file (JsonFile todos) s
      else if format = lit ''csv'' then
        (case writerows todos of
           (rows, err) \<Rightarrow>
             (let s' = write_file (CsvFile (map (zip fieldnames) rows)) s
              in case err of
                   None \<Rightarrow> s'
                 | Some e \<Rightarrow> logging_error_exc (lit ''Failed to save todos: '') e s'))
      else
        (case writelines (isprintable (env s)) todos of
           (chars, err) \<Rightarrow>
             (let s' = write_file (TxtFile chars) s
              in case err of
                   None \<Rightarrow> s'
                 | Some e \<Rightarrow> logging_error_exc (lit ''Failed to save todos: '') e s')))"

subsection \<open>The commands\<close>

text \<open>
  A command completes, or an exception leaves it (with the state reached by then), or
  click rejects an argument before the body runs.
\<close>

datatype outcome =
    Completed state
  | Uncaught py_error state
  | UsageError state

definition signin :: "pystr \<Rightarrow> state \<Rightarrow> outcome" where
  "signin path s =
     Completed (logging_info (lit ''File path set to '' @ path) (s\<lparr>current_file_path := Some path\<rparr>))"

definition hello :: "pystr \<Rightarrow> state \<Rightarrow> outcome" where
  "hello name s =
     (case click_echo (lit ''Hello '' @ name @ lit ''!'') s of
        Inl e \<Rightarrow> Uncaught e s
      | Inr s1 \<Rightarrow> Completed (logging_info (lit ''Greeted '' @ name) s1))"

text \<open>
  \<open>add_todo\<close>: the priority argument is a \<open>click.Choice\<close> of the keys of \<open>PRIORITIES\<close>
  with default \<open>m\<close>.
\<close>

definition add_todo :: "pystr \<Rightarrow> pystr \<Rightarrow> pystr option \<Rightarrow> state \<Rightarrow> outcome" where
  "add_todo name description priority_arg s =
     (let priority = (case priority_arg of None \<Rightarrow> lit ''m'' | Some k \<Rightarrow> k)
      in if priority \<notin> set (map fst PRIORITIES) then UsageError s
         else
           (let format = StorageType (config s)
            in case load_todos format s of
                 (Inl e, s1) \<Rightarrow> Uncaught e s1
               | (Inr todos, s1) \<Rightarrow>
                   (case map_of PRIORITIES priority of
                      None \<Rightarrow> Uncaught KeyError s1
                    | Some label \<Rightarrow>
                        (let new_todo =
                               Dict [(lit ''name'', name), (lit ''description'', description),
                                     (lit ''priority'', label)];
                             todos' =
                               (if format = lit ''txt''
                                then todos @ [Str (name @ lit '': '' @ description
                                                     @ lit '' [Priority: '' @ label @ lit '']'')]
                                else todos @ [new_todo])
                         in Completed (logging_info (lit ''Added new todo.'')
                                         (save_todos todos' format s1))))))"

definition delete_todo :: "int \<Rightarrow> state \<Rightarrow> outcome" where
  "delete_todo idx s =
     (let format = StorageType (config s)
      in case load_todos format s of
           (Inl e, s1) \<Rightarrow> Uncaught e s1
         | (Inr todos, s1) \<Rightarrow>
             if idx < int (length todos) then
               (case py_pop todos idx of
                  Inl e \<Rightarrow> Uncaught e s1
                | Inr todos' \<Rightarrow>
                    Completed (logging_info (lit ''Deleted todo at index '' @ lit (show_int idx))
                                 (save_todos todos' format s1)))
             else
               (case click_echo (lit ''Invalid todo index.'') s1 of
                  Inl e \<Rightarrow> Uncaught e s1
                | Inr s2 \<Rightarrow>
                    Completed (logging_error (lit ''Attempt to delete non-existent todo index.'') s2)))"

text \<open>
  The list comprehension of \<open>list_todos\<close>: for each todo, \<open>todo['priority']\<close> and then
  \<open>PRIORITIES[priority]\<close> are evaluated; the first exception ends it.
\<close>

fun filter_todos :: "pystr \<Rightarrow> todo list \<Rightarrow> py_error + todo list" where
  "filter_todos priority [] = Inr []"
| "filter_todos priority (todo # todos) =
     (case getitem todo (lit ''priority'') of
        Inl e \<Rightarrow> Inl e
      | Inr p \<Rightarrow>
          (case map_of PRIORITIES priority of
             None \<Rightarrow> Inl KeyError
           | Some label \<Rightarrow>
               (case filter_todos priority todos of
                  Inl e \<Rightarrow> Inl e
                | Inr rest \<Rightarrow> Inr (if p = label then todo # rest else rest))))"

text \<open>The line echoed for one todo; in the structured formats the three fields are read in turn.\<close>

definition todo_line :: "(nat \<Rightarrow> bool) \<Rightarrow> pystr \<Rightarrow> nat \<Rightarrow> todo \<Rightarrow> py_error + pystr" where
  "todo_line printable format idx todo =
     (if format = lit ''txt''
      then Inr (lit (''('' @ show_nat idx @ '') - '') @ py_str printable todo)
      else
        (case getitem todo (lit ''name'') of
           Inl e \<Rightarrow> Inl e
         | Inr n \<Rightarrow>
             (case getitem todo (lit ''description'') of
                Inl e \<Rightarrow> Inl e
              | Inr d \<Rightarrow>
                  (case getitem todo (lit ''priority'') of
                     Inl e \<Rightarrow> Inl e
                   | Inr p \<Rightarrow>
                       Inr (lit (''('' @ show_nat idx @ '') - '') @ n @ lit '': '' @ d
                              @ lit '' [Priority: '' @ p @ lit '']'')))))"

text \<open>The loop over \<open>enumerate(filtered_todos)\<close>, the index starting at the given number.\<close>

fun echo_todos :: "pystr \<Rightarrow> nat \<Rightarrow> todo list \<Rightarrow> state \<Rightarrow> outcome" where
  "echo_todos format idx [] s = Completed s"
| "echo_todos format idx (todo # todos) s =
     (case todo_line (isprintable (env s)) format idx todo of
        Inl e \<Rightarrow> Uncaught e s
      | Inr line \<Rightarrow>
          (case click_echo line s of
             Inl e \<Rightarrow> Uncaught e s
           | Inr s1 \<Rightarrow> echo_todos format (Suc idx) todos s1))"

definition finish_listing :: "outcome \<Rightarrow> outcome" where
  "finish_listing r =
     (case r of
        Completed s \<Rightarrow> Completed (logging_info (lit ''Listed todos successfully.'') s)
      | Uncaught e s \<Rightarrow> Uncaught e s
      | UsageError s \<Rightarrow> UsageError s)"

definition list_todos :: "pystr option \<Rightarrow> state \<Rightarrow> outcome" where
  "list_todos priority_arg s =
     (case priority_arg of
        None \<Rightarrow>
          (let format = StorageType (config s)
           in case load_todos format s of
                (Inl e, s1) \<Rightarrow> Uncaught e s1
              | (Inr todos, s1) \<Rightarrow> finish_listing (echo_todos format 0 todos s1))
      | Some priority \<Rightarrow>
          if priority \<notin> set (map fst PRIORITIES) then UsageError s
          else
            (let format = StorageType (config s)
             in case load_todos format s of
                  (Inl e, s1) \<Rightarrow> Uncaught e s1
                | (Inr todos, s1) \<Rightarrow>
                    (case filter_todos priority todos of
                       Inl e \<Rightarrow> Uncaught e s1
                     | Inr filtered_todos \<Rightarrow>
                         finish_listing (echo_todos format 0 filtered_todos s1))))"

text \<open>Running a command after another one, as two invocations of the program in a row.\<close>

definition and_then :: "outcome \<Rightarrow> (state \<Rightarrow> outcome) \<Rightarrow> outcome" where
  "and_then r cmd = (case r of Completed s \<Rightarrow> cmd s | Uncaught e s \<Rightarrow> Uncaught e s | UsageError s \<Rightarrow> UsageError s)"

subsection \<open>Reading off an outcome, and a session to run examples in\<close>

fun state_of :: "outcome \<Rightarrow> state" where
  "state_of (Completed s) = s"
| "state_of (Uncaught e s) = s"
| "state_of (UsageError s) = s"

text \<open>
  A session whose \<open>config.ini\<close> names the file \<open>todos\<close> and the given storage type, with
  the given content of that file (\<open>None\<close>: no such file), no other file, an empty log
  and nothing echoed yet, on a platform where no reader accepts a file of another
  format, no character above ASCII is printable and the terminal is strict.
\<close>

definition session :: "pystr \<Rightarrow> file_content option \<Rightarrow> state" where
  "session format f =
     \<lparr>config = \<lparr>FileName = lit ''todos'', StorageType = format\<rparr>,
      env = \<lparr>foreign_json = (\<lambda>c. None), foreign_csv = (\<lambda>c. None), foreign_text = (\<lambda>c. None),
             isprintable = (\<lambda>c. False), lenient_stdout = (\<lambda>l. False)\<rparr>,
      current_file_path = None,
      fs = (\<lambda>p. if p = lit ''todos'' then f else None),
      logged = [],
      stdout = []\<rparr>"

subsection \<open>What the specification asks of a save and of a filtered listing\<close>

text \<open>
  The file that holds a list of todos in a format: the list itself in json, one row of
  \<open>name\<close>, \<open>description\<close>, \<open>priority\<close> for each entry in csv, one line for each entry in
  text.
\<close>

definition field :: "todo \<Rightarrow> pystr \<Rightarrow> pystr" where
  "field t k = (case getitem t k of Inr v \<Rightarrow> v | Inl e \<Rightarrow> [])"


text \<open>
  The entries that a json file gives back as they are: no string in them has a high
  surrogate directly before a low one (and no key occurs twice, as in every dict).
  The entries that a csv file gives back as they are: records of exactly \<open>name\<close>,
  \<open>description\<close> and \<open>priority\<close> whose values UTF-8 encodes and the reader accepts.
\<close>

fun json_plain :: "todo \<Rightarrow> bool" where
  "json_plain (Str s) = (\<not> surrogate_pair s)"
| "json_plain (Dict d) =
     (distinct (map fst d)
      \<and> list_all (\<lambda>(k, v). \<not> surrogate_pair k \<and> \<not> surrogate_pair v) d)"


text \<open>
  The filtered listing: of the todos, those whose priority label is the display name of
  the filter's key, in their order, each on one line that starts with its position
  among them, counted from 0.
\<close>

definition listed_line :: "nat \<Rightarrow> todo \<Rightarrow> pystr" where
  "listed_line idx t =
     lit (''('' @ show_nat idx @ '') - '') @ field t (lit ''name'') @ lit '': ''
       @ field t (lit ''description'') @ lit '' [Priority: '' @ field t (lit ''priority'') @ lit '']''"

definition listing :: "pystr \<Rightarrow> todo list \<Rightarrow> pystr list" where
  "listing label todos =
     map (\<lambda>(idx, t). listed_line idx t)
       (enumerate 0 (filter (\<lambda>t. field t (lit ''priority'') = label) todos))"

section \<open>Properties\<close>

subsection \<open>Literals\<close>

lemma lit_simps [simp]:
  "lit [] = []"
  "lit (a @ b) = lit a @ lit b"
  by (simp_all add: lit_def)

lemma lit_Cons: "lit (c # cs) = of_char c # lit cs"
  by (simp add: lit_def)

lemma lit_eq_iff [simp]: "lit a = lit b \<longleftrightarrow> a = b"
  unfolding lit_def by (rule inj_map_eq_map) (simp add: inj_def)

lemma length_lit [simp]: "length (lit a) = length a"
  by (simp add: lit_def)

lemma encodable_simps [simp]:
  "encodable []"
  "encodable (c # cs) \<longleftrightarrow> \<not> (0xD800 \<le> c \<and> c \<le> 0xDFFF) \<and> encodable cs"
  "encodable (a @ b) \<longleftrightarrow> encodable a \<and> encodable b"
  by (simp_all add: encodable_def)

lemma of_char_small: "(of_char c :: nat) < 256"
  by simp

lemma encodable_lit [simp]: "encodable (lit a)"
proof (induction a)
  case Nil
  show ?case by simp
next
  case (Cons c a)
  have "(of_char c :: nat) < 256" by simp
  then have "\<not> (0xD800 \<le> (of_char c :: nat) \<and> (of_char c :: nat) \<le> 0xDFFF)" by linarith
  with Cons show ?case by (simp add: lit_Cons)
qed

lemma encodable_set: "encodable s \<longleftrightarrow> (\<forall>c \<in> set s. \<not> (0xD800 \<le> c \<and> c \<le> 0xDFFF))"
  by (simp add: encodable_def list_all_iff)

subsection \<open>Lines of text\<close>


lemma is_linebreak_CR: "is_linebreak CR"
  by (simp add: is_linebreak_def)

lemma universal_newlines_id: "CR \<notin> set t \<Longrightarrow> universal_newlines t = t"
  by (induction t rule: universal_newlines.induct) auto

lemma set_universal_newlines: "set (universal_newlines t) \<subseteq> insert LF (set t)"
  by (induction t rule: universal_newlines.induct) auto

lemma encodable_universal_newlines: "encodable t \<Longrightarrow> encodable (universal_newlines t)"
proof -
  assume "encodable t"
  then have "\<forall>c \<in> insert LF (set t). \<not> (0xD800 \<le> c \<and> c \<le> 0xDFFF)"
    by (simp add: encodable_set)
  then show ?thesis
    using set_universal_newlines [of t] unfolding encodable_set by blast
qed

lemma splitlines_nonempty: "t \<noteq> [] \<Longrightarrow> splitlines t \<noteq> []"
  by (induction t rule: splitlines.induct) (simp_all split: list.splits)

text \<open>No line that \<open>splitlines\<close> returns has a line boundary in it.\<close>

lemma splitlines_break_free: "\<forall>l \<in> set (splitlines t). \<forall>c \<in> set l. \<not> is_linebreak c"
proof (induction t rule: splitlines.induct)
  case 1
  show ?case by simp
next
  case (2 c')
  show ?case by simp
next
  case (3 c' d cs)
  show ?case
  proof (cases "c' = CR \<and> d = LF")
    case True
    with 3 show ?thesis by simp
  next
    case False
    show ?thesis
    proof (cases "is_linebreak c'")
      case True
      with False 3 show ?thesis by simp
    next
      case nb: False
      obtain x xs where sp: "splitlines (d # cs) = x # xs"
        using splitlines_nonempty [of "d # cs"] by (cases "splitlines (d # cs)") auto
      have IH: "\<forall>l \<in> set (x # xs). \<forall>c \<in> set l. \<not> is_linebreak c"
        using 3(3) [OF False nb] sp by simp
      have "splitlines (c' # d # cs) = (c' # x) # xs"
        using False nb sp by simp
      with IH nb show ?thesis by simp
    qed
  qed
qed

text \<open>The lines are made of characters of the text.\<close>

lemma splitlines_chars: "\<forall>l \<in> set (splitlines t). set l \<subseteq> set t"
proof (induction t rule: splitlines.induct)
  case 1
  show ?case by simp
next
  case (2 c')
  show ?case by simp
next
  case (3 c' d cs)
  show ?case
  proof (cases "c' = CR \<and> d = LF")
    case True
    with 3 show ?thesis by auto
  next
    case False
    show ?thesis
    proof (cases "is_linebreak c'")
      case True
      with False 3 show ?thesis by auto
    next
      case nb: False
      obtain x xs where sp: "splitlines (d # cs) = x # xs"
        using splitlines_nonempty [of "d # cs"] by (cases "splitlines (d # cs)") auto
      have IH: "\<forall>l \<in> set (x # xs). set l \<subseteq> set (d # cs)"
        using 3(3) [OF False nb] sp by simp
      have "splitlines (c' # d # cs) = (c' # x) # xs"
        using False nb sp by simp
      with IH show ?thesis by auto
    qed
  qed
qed

lemma splitlines_encodable: "encodable t \<Longrightarrow> \<forall>l \<in> set (splitlines t). encodable l"
  using splitlines_chars [of t] unfolding encodable_set by blast

text \<open>A line without boundaries, written with its newline, is read back as that line.\<close>

lemma splitlines_terminated:
  "\<forall>c \<in> set l. \<not> is_linebreak c \<Longrightarrow> splitlines (l @ LF # rest) = l # splitlines rest"
proof (induction l)
  case Nil
  show ?case by (cases rest) (simp_all add: is_linebreak_def)
next
  case (Cons c l)
  then have IH: "splitlines (l @ LF # rest) = l # splitlines rest"
    and c: "\<not> is_linebreak c" by simp_all
  from c have "c \<noteq> CR" using is_linebreak_CR by blast
  obtain d ds where ds: "l @ LF # rest = d # ds" by (cases "l @ LF # rest") auto
  have "splitlines (c # d # ds) = (c # l) # splitlines rest"
    using c IH \<open>c \<noteq> CR\<close> unfolding ds by simp
  then show ?case using ds by simp
qed

lemma splitlines_unlines:
  "\<forall>l \<in> set ls. \<forall>c \<in> set l. \<not> is_linebreak c \<Longrightarrow>
   splitlines (concat (map (\<lambda>l. l @ [LF]) ls)) = ls"
  by (induction ls) (simp_all add: splitlines_terminated)


subsection \<open>What logging, echoing and writing leave alone\<close>

lemma filename_simps [simp]:
  "filename (logging_info m s) = filename s"
  "filename (logging_error m s) = filename s"
  "filename (logging_error_exc m e s) = filename s"
  "filename (write_file c s) = filename s"
  "filename (s\<lparr>logged := l\<rparr>) = filename s"
  "filename (s\<lparr>stdout := out\<rparr>) = filename s"
  "filename (s\<lparr>fs := f\<rparr>) = filename s"
  by (simp_all add: filename_def logging_info_def logging_error_def logging_error_exc_def
      write_file_def split: option.splits)

lemma fs_simps [simp]:
  "fs (logging_info m s) = fs s"
  "fs (logging_error m s) = fs s"
  "fs (logging_error_exc m e s) = fs s"
  "fs (write_file c s) = (fs s)(filename s \<mapsto> c)"
  by (simp_all add: logging_info_def logging_error_def logging_error_exc_def write_file_def)

lemma stdout_simps [simp]:
  "stdout (logging_info m s) = stdout s"
  "stdout (logging_error m s) = stdout s"
  "stdout (logging_error_exc m e s) = stdout s"
  "stdout (write_file c s) = stdout s"
  by (simp_all add: logging_info_def logging_error_def logging_error_exc_def write_file_def)

lemma config_simps [simp]:
  "config (logging_info m s) = config s"
  "config (logging_error m s) = config s"
  "config (logging_error_exc m e s) = config s"
  "config (write_file c s) = config s"
  by (simp_all add: logging_info_def logging_error_def logging_error_exc_def write_file_def)

lemma env_simps [simp]:
  "env (logging_info m s) = env s"
  "env (logging_error m s) = env s"
  "env (logging_error_exc m e s) = env s"
  "env (write_file c s) = env s"
  by (simp_all add: logging_info_def logging_error_def logging_error_exc_def write_file_def)

lemma logged_simps [simp]:
  "logged (logging_info m s) = logged s @ [INFO m]"
  "logged (logging_error m s) = logged s @ [ERROR m]"
  "logged (logging_error_exc m e s) = logged s @ [ERROR_exc m e]"
  "logged (write_file c s) = logged s"
  by (simp_all add: logging_info_def logging_error_def logging_error_exc_def write_file_def)

lemma click_echo_encodable:
  "encodable line \<Longrightarrow> click_echo line s = Inr (s\<lparr>stdout := stdout s @ [line]\<rparr>)"
  by (simp add: click_echo_def)

lemma session_simps [simp]:
  "config (session format f) = \<lparr>FileName = lit ''todos'', StorageType = format\<rparr>"
  "filename (session format f) = lit ''todos''"
  "fs (session format f) (lit ''todos'') = f"
  "logged (session format f) = []"
  "stdout (session format f) = []"
  "foreign_json (env (session format f)) = (\<lambda>c. None)"
  "foreign_csv (env (session format f)) = (\<lambda>c. None)"
  "foreign_text (env (session format f)) = (\<lambda>c. None)"
  "isprintable (env (session format f)) = (\<lambda>c. False)"
  "lenient_stdout (env (session format f)) = (\<lambda>l. False)"
  by (simp_all add: session_def filename_def)

subsection \<open>What \<open>load_todos\<close> returns\<close>



lemma load_todos_keeps:
  assumes "load_todos format s = (r, s1)"
  shows "fs s1 = fs s" and "filename s1 = filename s" and "config s1 = config s"
    and "stdout s1 = stdout s" and "env s1 = env s"
  using assms by (auto simp: load_todos_def split: sum.splits if_splits)

lemma load_todos_existing:
  "fs s (filename s) = Some c \<Longrightarrow> decode (env s) format c = Inr todos \<Longrightarrow>
   load_todos format s = (Inr todos, s)"
  by (simp add: load_todos_def read_todos_def)

lemma load_todos_missing:
  "fs s (filename s) = None \<Longrightarrow>
   load_todos format s = (Inr [], logging_info (lit ''No todo file found, starting a new one.'') s)"
  by (simp add: load_todos_def read_todos_def)

text \<open>What a load in a text format returns: strings without line boundaries that UTF-8 encodes.\<close>

lemma decode_text:
  assumes "decode e format c = Inr todos" and "format \<noteq> lit ''json''" and "format \<noteq> lit ''csv''"
  shows "\<exists>ls. todos = map Str ls \<and> (\<forall>l \<in> set ls. encodable l \<and> (\<forall>c \<in> set l. \<not> is_linebreak c))"
proof -
  from assms obtain chars where enc: "encodable chars"
    and todos: "todos = map Str (splitlines (universal_newlines chars))"
    by (auto simp: decode_def split: if_splits file_content.splits option.splits)
  have "\<forall>l \<in> set (splitlines (universal_newlines chars)). encodable l"
    using enc by (intro splitlines_encodable encodable_universal_newlines)
  then show ?thesis using todos splitlines_break_free by blast
qed

lemma load_todos_text:
  assumes "load_todos format s = (Inr todos, s1)" and "format \<noteq> lit ''json''" and "format \<noteq> lit ''csv''"
  shows "\<exists>ls. todos = map Str ls \<and> (\<forall>l \<in> set ls. encodable l \<and> (\<forall>c \<in> set l. \<not> is_linebreak c))"
proof (cases "read_todos (env s) format (fs s (filename s))")
  case (Inl e)
  with assms(1) have "todos = []" by (auto simp: load_todos_def split: if_splits)
  then show ?thesis by simp
next
  case (Inr ts)
  with assms(1) have "todos = ts" by (simp add: load_todos_def)
  with Inr obtain c where "decode (env s) format c = Inr todos"
    by (auto simp: read_todos_def split: option.splits)
  then show ?thesis using assms(2,3) by (rule decode_text)
qed

text \<open>What a load in csv returns: rows the reader accepts.\<close>

lemma load_todos_csv:
  assumes "load_todos (lit ''csv'') s = (Inr todos, s1)"
  shows "\<exists>rows. todos = map Dict rows \<and> csv_readable rows"
proof (cases "read_todos (env s) (lit ''csv'') (fs s (filename s))")
  case (Inl e)
  with assms(1) have "todos = []" by (auto simp: load_todos_def split: if_splits)
  then show ?thesis by (simp add: csv_readable_def)
next
  case (Inr ts)
  with assms(1) have "todos = ts" by (simp add: load_todos_def)
  with Inr obtain c where "decode (env s) (lit ''csv'') c = Inr todos"
    by (auto simp: read_todos_def split: option.splits)
  then show ?thesis
    by (auto simp: decode_def split: if_splits file_content.splits option.splits)
qed

lemma priority_label:
  "priority \<in> set (map fst PRIORITIES) \<Longrightarrow> \<exists>label. map_of PRIORITIES priority = Some label"
  by (auto simp: PRIORITIES_def)

lemma priority_key:
  "map_of PRIORITIES priority = Some label \<Longrightarrow> priority \<in> set (map fst PRIORITIES)"
  by (metis map_of_eq_None_iff option.distinct(1) set_map)

subsection \<open>A save that goes through\<close>

lemma dict_to_list_fields: "dict_to_list t = Inr r \<Longrightarrow> r = map (field t) fieldnames"
  by (cases t) (auto simp: field_def split: if_splits option.splits)

lemma writerow_fields: "writerow t = Inr r \<Longrightarrow> r = map (field t) fieldnames"
  using dict_to_list_fields by (auto simp: writerow_def split: sum.splits if_splits)

lemma zip_fieldnames: "zip fieldnames (map f fieldnames) = map (\<lambda>k. (k, f k)) fieldnames"
  by (simp add: fieldnames_def)

lemma writerows_accepted:
  "\<forall>t \<in> set X. \<exists>r. writerow t = Inr r \<Longrightarrow>
   writerows X = (map (\<lambda>t. map (field t) fieldnames) X, None)"
proof (induction X)
  case Nil
  show ?case by simp
next
  case (Cons t ts)
  then obtain r where r: "writerow t = Inr r" by auto
  then have "r = map (field t) fieldnames" by (rule writerow_fields)
  moreover have "writerows ts = (map (\<lambda>t. map (field t) fieldnames) ts, None)"
    using Cons by simp
  ultimately show ?case using r by simp
qed



text \<open>What was loaded can be encoded, so a row of it fails in the writer only for its keys.\<close>

lemma readable_row_encodable:
  assumes "list_all (\<lambda>(k, v). length k \<le> 131072 \<and> length v \<le> 131072
                            \<and> encodable k \<and> encodable v) d"
    and "dict_to_list (Dict d) = Inr r"
  shows "list_all encodable r"
proof -
  have "encodable (case map_of d k of None \<Rightarrow> [] | Some v \<Rightarrow> v)" for k
  proof (cases "map_of d k")
    case None
    then show ?thesis by simp
  next
    case (Some v)
    then have "(k, v) \<in> set d" by (rule map_of_SomeD)
    with assms(1) have "encodable v" by (auto simp: list_all_iff)
    with Some show ?thesis by simp
  qed
  moreover have "r = map (\<lambda>k. case map_of d k of None \<Rightarrow> [] | Some v \<Rightarrow> v) fieldnames"
    using assms(2) by (auto split: if_splits)
  ultimately show ?thesis by (simp add: list_all_iff)
qed


subsection \<open>\<open>list.pop\<close>\<close>



lemma py_pop_below_range:
  "idx < - int (length xs) \<Longrightarrow>
   py_pop xs idx = Inl (if idx < - (2 ^ 63) then OverflowError else IndexError)"
  by (simp add: py_pop_def Let_def)


subsection \<open>Loading in a session\<close>

lemma load_session_txt:
  "encodable t \<Longrightarrow>
   load_todos (lit ''txt'') (session (lit ''txt'') (Some (TxtFile t))) =
     (Inr (map Str (splitlines (universal_newlines t))), session (lit ''txt'') (Some (TxtFile t)))"
  by (rule load_todos_existing [where c = "TxtFile t"]) (simp_all add: decode_def)

lemma load_session_csv:
  "csv_readable rows \<Longrightarrow>
   load_todos (lit ''csv'') (session (lit ''csv'') (Some (CsvFile rows))) =
     (Inr (map Dict rows), session (lit ''csv'') (Some (CsvFile rows)))"
  by (rule load_todos_existing [where c = "CsvFile rows"]) (simp_all add: decode_def)

lemma load_session_json:
  "load_todos (lit ''json'') (session (lit ''json'') (Some (JsonFile X))) =
     (Inr (map json_value X), session (lit ''json'') (Some (JsonFile X)))"
  by (rule load_todos_existing [where c = "JsonFile X"]) (simp_all add: decode_def)

subsection \<open>\<open>delete_todo\<close>\<close>

text \<open>
  An index at or above the length of the loaded list: nothing is saved, the files are
  as before, and the user is told \<open>Invalid todo index.\<close>
\<close>

lemma delete_todo_index_too_large:
  assumes "load_todos (StorageType (config s)) s = (Inr todos, s1)"
    and "int (length todos) \<le> idx"
  shows "delete_todo idx s =
     Completed (logging_error (lit ''Attempt to delete non-existent todo index.'')
                  (s1\<lparr>stdout := stdout s1 @ [lit ''Invalid todo index.'']\<rparr>))"
    and "fs s1 = fs s"
  using assms load_todos_keeps(1) [OF assms(1)]
  by (simp_all add: delete_todo_def click_echo_encodable)

text \<open>
  C1 says that a negative index, too, leaves the list and the file alone and is answered
  with \<open>Invalid todo index.\<close> The guard of \<open>delete_todo\<close> is \<open>idx < len(todos)\<close> only, so
  a negative index passes it. On a text store holding the one line \<open>a\<close>, \<open>delete_todo\<close>
  with index \<open>-1\<close> removes that line, writes the file back empty and echoes nothing.
\<close>

theorem delete_todo_minus_one_removes_last:
  "fst (load_todos (lit ''txt'') (session (lit ''txt'') (Some (TxtFile (lit ''a'' @ [LF])))))
     = Inr [Str (lit ''a'')]
   \<and> delete_todo (- 1) (session (lit ''txt'') (Some (TxtFile (lit ''a'' @ [LF])))) =
       Completed (logging_info (lit ''Deleted todo at index '' @ lit ''-1'')
                    (write_file (TxtFile []) (session (lit ''txt'') (Some (TxtFile (lit ''a'' @ [LF]))))))
   \<and> fs (state_of (delete_todo (- 1) (session (lit ''txt'') (Some (TxtFile (lit ''a'' @ [LF]))))))
        (lit ''todos'')
       = Some (TxtFile [])
   \<and> stdout (state_of (delete_todo (- 1) (session (lit ''txt'') (Some (TxtFile (lit ''a'' @ [LF]))))))
       = []"
proof -
  let ?s = "session (lit ''txt'') (Some (TxtFile (lit ''a'' @ [LF])))"
  have "splitlines (universal_newlines (lit ''a'' @ [LF])) = [lit ''a'']"
    by (simp add: lit_Cons is_linebreak_def)
  then have load: "load_todos (lit ''txt'') ?s = (Inr [Str (lit ''a'')], ?s)"
    using load_session_txt [of "lit ''a'' @ [LF]"] by simp
  have "delete_todo (- 1) ?s =
      Completed (logging_info (lit ''Deleted todo at index '' @ lit ''-1'') (write_file (TxtFile []) ?s))"
    using load
    by (simp add: delete_todo_def py_pop_def save_todos_def show_int_def show_nat.simps digit_char_def)
  with load show ?thesis by simp
qed



text \<open>
  C10, as the code has it: for a loaded list of length \<open>n\<close> and an index \<open>idx < -n\<close>,
  the \<open>pop\<close> of \<open>delete_todo\<close> raises, outside any handler: IndexError when
  \<open>-2^63 \<le> idx\<close>, OverflowError below that. The command ends in the state the load
  left, with every file as it was.
\<close>

theorem delete_todo_index_below_range:
  assumes "load_todos (StorageType (config s)) s = (Inr todos, s1)"
    and "idx < - int (length todos)"
  shows "delete_todo idx s =
           Uncaught (if idx < - (2 ^ 63) then OverflowError else IndexError) s1
         \<and> fs s1 = fs s"
proof -
  have "idx < int (length todos)" using assms(2) by simp
  then show ?thesis
    using assms load_todos_keeps(1) [OF assms(1)]
    by (simp add: delete_todo_def py_pop_below_range)
qed



lemma lines_ab:
  "splitlines (universal_newlines (lit ''a'' @ [LF] @ lit ''b'' @ [LF])) = [lit ''a'', lit ''b'']"
  by (simp add: lit_Cons is_linebreak_def)





theorem delete_todo_index_below_range_witness:
  "delete_todo (- 3) (session (lit ''txt'') (Some (TxtFile (lit ''a'' @ [LF] @ lit ''b'' @ [LF])))) =
     Uncaught IndexError (session (lit ''txt'') (Some (TxtFile (lit ''a'' @ [LF] @ lit ''b'' @ [LF]))))"
proof -
  let ?s = "session (lit ''txt'') (Some (TxtFile (lit ''a'' @ [LF] @ lit ''b'' @ [LF])))"
  have load: "load_todos (StorageType (config ?s)) ?s = (Inr [Str (lit ''a''), Str (lit ''b'')], ?s)"
    using load_session_txt [of "lit ''a'' @ [LF] @ lit ''b'' @ [LF]"] lines_ab by simp
  have "(- 3 :: int) < - int (length [Str (lit ''a''), Str (lit ''b'')])" by simp
  from delete_todo_index_below_range [OF load this] show ?thesis by simp
qed

text \<open>
  C10 as stated fails below \<open>-2^63\<close>: \<open>pop\<close> cannot convert the index and raises
  OverflowError, not IndexError.
\<close>

theorem delete_todo_index_overflow:
  "fst (load_todos (lit ''txt'')
          (session (lit ''txt'') (Some (TxtFile (lit ''a'' @ [LF] @ lit ''b'' @ [LF])))))
     = Inr [Str (lit ''a''), Str (lit ''b'')]
   \<and> delete_todo (- 9223372036854775809)
        (session (lit ''txt'') (Some (TxtFile (lit ''a'' @ [LF] @ lit ''b'' @ [LF]))))
     = Uncaught OverflowError (session (lit ''txt'') (Some (TxtFile (lit ''a'' @ [LF] @ lit ''b'' @ [LF]))))
   \<and> delete_todo (- 9223372036854775809)
        (session (lit ''txt'') (Some (TxtFile (lit ''a'' @ [LF] @ lit ''b'' @ [LF]))))
     \<noteq> Uncaught IndexError (session (lit ''txt'') (Some (TxtFile (lit ''a'' @ [LF] @ lit ''b'' @ [LF]))))"
proof -
  let ?s = "session (lit ''txt'') (Some (TxtFile (lit ''a'' @ [LF] @ lit ''b'' @ [LF])))"
  have load: "load_todos (lit ''txt'') ?s = (Inr [Str (lit ''a''), Str (lit ''b'')], ?s)"
    using load_session_txt [of "lit ''a'' @ [LF] @ lit ''b'' @ [LF]"] lines_ab by simp
  have "delete_todo (- 9223372036854775809) ?s = Uncaught OverflowError ?s"
    using load by (simp add: delete_todo_def py_pop_def)
  with load show ?thesis by simp
qed

subsection \<open>\<open>load_todos\<close>\<close>




subsection \<open>\<open>list_todos\<close>\<close>

lemma filter_todos_string: "filter_todos priority (Str l # todos) = Inl TypeError"
  by simp

text \<open>
  C3: in text mode, with at least one line in the store, \<open>list_todos\<close> with a priority
  filter fails in the filtering step: the first entry is a plain string, indexing it with
  \<open>'priority'\<close> raises TypeError, and nothing catches it. Nothing is echoed and no file
  is touched.
\<close>

theorem list_todos_filter_on_text_lines:
  assumes "StorageType (config s) = lit ''txt''"
    and "load_todos (lit ''txt'') s = (Inr todos, s1)"
    and "todos \<noteq> []"
    and "priority \<in> set (map fst PRIORITIES)"
  shows "list_todos (Some priority) s = Uncaught TypeError s1
         \<and> stdout s1 = stdout s \<and> fs s1 = fs s"
proof -
  have "lit ''txt'' \<noteq> lit ''json''" and "lit ''txt'' \<noteq> lit ''csv''" by simp_all
  then obtain ls where ls: "todos = map Str ls"
    using load_todos_text [OF assms(2)] by blast
  with assms(3) obtain l ls' where "todos = Str l # map Str ls'"
    by (cases ls) auto
  then have "filter_todos priority todos = Inl TypeError" by simp
  then show ?thesis
    using assms(1,2,4) load_todos_keeps [OF assms(2)] by (simp add: list_todos_def)
qed

lemma line_high:
  "splitlines (universal_newlines (lit ''X: Y [Priority: High]'' @ [LF])) = [lit ''X: Y [Priority: High]'']"
  by (simp add: lit_Cons is_linebreak_def)

theorem list_todos_filter_on_text_lines_witness:
  "list_todos (Some (lit ''h''))
     (session (lit ''txt'') (Some (TxtFile (lit ''X: Y [Priority: High]'' @ [LF])))) =
   Uncaught TypeError (session (lit ''txt'') (Some (TxtFile (lit ''X: Y [Priority: High]'' @ [LF]))))"
proof -
  let ?s = "session (lit ''txt'') (Some (TxtFile (lit ''X: Y [Priority: High]'' @ [LF])))"
  have fmt: "StorageType (config ?s) = lit ''txt''" by simp
  have load: "load_todos (lit ''txt'') ?s = (Inr [Str (lit ''X: Y [Priority: High]'')], ?s)"
    using load_session_txt [of "lit ''X: Y [Priority: High]'' @ [LF]"] line_high by simp
  have ne: "[Str (lit ''X: Y [Priority: High]'')] \<noteq> []" by simp
  have key: "lit ''h'' \<in> set (map fst PRIORITIES)" by (simp add: PRIORITIES_def)
  from list_todos_filter_on_text_lines [OF fmt load ne key] show ?thesis by (rule conjunct1)
qed

lemma list_todos_filter_on_empty_store:
  assumes "load_todos (StorageType (config s)) s = (Inr [], s1)"
    and "priority \<in> set (map fst PRIORITIES)"
  shows "list_todos (Some priority) s = Completed (logging_info (lit ''Listed todos successfully.'') s1)"
  using assms by (simp add: list_todos_def finish_listing_def)

lemma has_fields:
  assumes "\<forall>k \<in> set fieldnames. \<exists>v. getitem t k = Inr v \<and> encodable v"
  shows "getitem t (lit ''name'') = Inr (field t (lit ''name''))"
    and "getitem t (lit ''description'') = Inr (field t (lit ''description''))"
    and "getitem t (lit ''priority'') = Inr (field t (lit ''priority''))"
    and "encodable (field t (lit ''name''))"
    and "encodable (field t (lit ''description''))"
    and "encodable (field t (lit ''priority''))"
  using assms by (auto simp: fieldnames_def field_def)

lemma filter_todos_records:
  assumes "map_of PRIORITIES priority = Some label"
    and "\<forall>t \<in> set todos. \<forall>k \<in> set fieldnames. \<exists>v. getitem t k = Inr v \<and> encodable v"
  shows "filter_todos priority todos = Inr (filter (\<lambda>t. field t (lit ''priority'') = label) todos)"
  using assms(2)
proof (induction todos)
  case Nil
  show ?case by simp
next
  case (Cons t ts)
  then have "getitem t (lit ''priority'') = Inr (field t (lit ''priority''))"
    using has_fields(3) [of t] by simp
  moreover have "filter_todos priority ts = Inr (filter (\<lambda>t. field t (lit ''priority'') = label) ts)"
    using Cons by simp
  ultimately show ?case using assms(1) by simp
qed

lemma todo_line_record:
  assumes "format \<noteq> lit ''txt''" and "\<forall>k \<in> set fieldnames. \<exists>v. getitem t k = Inr v \<and> encodable v"
  shows "todo_line printable format idx t = Inr (listed_line idx t)"
    and "encodable (listed_line idx t)"
  using assms(1) has_fields [OF assms(2)] by (simp_all add: todo_line_def listed_line_def)

lemma echo_todos_records:
  assumes "format \<noteq> lit ''txt''"
    and "\<forall>t \<in> set todos. \<forall>k \<in> set fieldnames. \<exists>v. getitem t k = Inr v \<and> encodable v"
  shows "echo_todos format i todos s =
     Completed (s\<lparr>stdout := stdout s @ map (\<lambda>(idx, t). listed_line idx t) (enumerate i todos)\<rparr>)"
  using assms(2)
proof (induction todos arbitrary: i s)
  case Nil
  show ?case by simp
next
  case (Cons t ts)
  let ?s1 = "s\<lparr>stdout := stdout s @ [listed_line i t]\<rparr>"
  have fields: "\<forall>k \<in> set fieldnames. \<exists>v. getitem t k = Inr v \<and> encodable v"
    using Cons.prems by simp
  have line: "todo_line (isprintable (env s)) format i t = Inr (listed_line i t)"
    using todo_line_record(1) [OF assms(1) fields] .
  have echo: "click_echo (listed_line i t) s = Inr ?s1"
    using todo_line_record(2) [OF assms(1) fields] by (rule click_echo_encodable)
  have "echo_todos format (Suc i) ts ?s1 =
     Completed (?s1\<lparr>stdout := stdout ?s1 @ map (\<lambda>(idx, t). listed_line idx t) (enumerate (Suc i) ts)\<rparr>)"
    using Cons by simp
  with line echo show ?case by simp
qed

text \<open>
  C6, as the code has it: in a structured format, when every loaded entry is a record
  with the fields \<open>name\<close>, \<open>description\<close> and \<open>priority\<close> whose values the terminal can
  encode, \<open>list_todos\<close> with a filter key echoes exactly the listing of the entries whose
  priority is the display name of the key, in their order, numbered from 0, and
  completes; when no entry matches, nothing is echoed.
\<close>

theorem list_todos_filtered:
  assumes "load_todos (StorageType (config s)) s = (Inr todos, s1)"
    and "StorageType (config s) \<noteq> lit ''txt''"
    and "map_of PRIORITIES priority = Some label"
    and "\<forall>t \<in> set todos. \<forall>k \<in> set fieldnames. \<exists>v. getitem t k = Inr v \<and> encodable v"
  shows "list_todos (Some priority) s =
           Completed (logging_info (lit ''Listed todos successfully.'')
                        (s1\<lparr>stdout := stdout s @ listing label todos\<rparr>))
         \<and> (filter (\<lambda>t. field t (lit ''priority'') = label) todos = [] \<longrightarrow>
              stdout (state_of (list_todos (Some priority) s)) = stdout s)"
proof -
  let ?kept = "filter (\<lambda>t. field t (lit ''priority'') = label) todos"
  have key: "priority \<in> set (map fst PRIORITIES)"
    using assms(3) by (rule priority_key)
  have kept: "\<forall>t \<in> set ?kept. \<forall>k \<in> set fieldnames. \<exists>v. getitem t k = Inr v \<and> encodable v"
    using assms(4) by simp
  have "list_todos (Some priority) s =
      finish_listing (echo_todos (StorageType (config s)) 0 ?kept s1)"
    using assms(1) key filter_todos_records [OF assms(3,4)] by (simp add: list_todos_def)
  also have "\<dots> = Completed (logging_info (lit ''Listed todos successfully.'')
                        (s1\<lparr>stdout := stdout s @ listing label todos\<rparr>))"
    using echo_todos_records [OF assms(2) kept, of 0 s1] load_todos_keeps(4) [OF assms(1)]
    by (simp add: finish_listing_def listing_def)
  finally have main: "list_todos (Some priority) s =
           Completed (logging_info (lit ''Listed todos successfully.'')
                        (s1\<lparr>stdout := stdout s @ listing label todos\<rparr>))" .
  then show ?thesis by (simp add: listing_def)
qed

theorem list_todos_filtered_witness:
  "list_todos (Some (lit ''h''))
     (session (lit ''csv'') (Some (CsvFile
        [[(lit ''name'', lit ''a''), (lit ''description'', lit ''x''), (lit ''priority'', lit ''High'')],
         [(lit ''name'', lit ''b''), (lit ''description'', lit ''y''), (lit ''priority'', lit ''Low'')],
         [(lit ''name'', lit ''c''), (lit ''description'', lit ''z''), (lit ''priority'', lit ''High'')]]))) =
   Completed (logging_info (lit ''Listed todos successfully.'')
     ((session (lit ''csv'') (Some (CsvFile
        [[(lit ''name'', lit ''a''), (lit ''description'', lit ''x''), (lit ''priority'', lit ''High'')],
         [(lit ''name'', lit ''b''), (lit ''description'', lit ''y''), (lit ''priority'', lit ''Low'')],
         [(lit ''name'', lit ''c''), (lit ''description'', lit ''z''), (lit ''priority'', lit ''High'')]])))
      \<lparr>stdout := [lit ''(0) - a: x [Priority: High]'', lit ''(1) - c: z [Priority: High]'']\<rparr>))
   \<and> stdout (state_of (list_todos (Some (lit ''o''))
     (session (lit ''csv'') (Some (CsvFile
        [[(lit ''name'', lit ''a''), (lit ''description'', lit ''x''), (lit ''priority'', lit ''High'')],
         [(lit ''name'', lit ''b''), (lit ''description'', lit ''y''), (lit ''priority'', lit ''Low'')],
         [(lit ''name'', lit ''c''), (lit ''description'', lit ''z''), (lit ''priority'', lit ''High'')]]))))) = []"
proof -
  let ?rows = "[[(lit ''name'', lit ''a''), (lit ''description'', lit ''x''), (lit ''priority'', lit ''High'')],
         [(lit ''name'', lit ''b''), (lit ''description'', lit ''y''), (lit ''priority'', lit ''Low'')],
         [(lit ''name'', lit ''c''), (lit ''description'', lit ''z''), (lit ''priority'', lit ''High'')]]"
  let ?todos = "map Dict ?rows"
  let ?s = "session (lit ''csv'') (Some (CsvFile ?rows))"
  have "csv_readable ?rows" by (simp add: csv_readable_def)
  then have load: "load_todos (StorageType (config ?s)) ?s = (Inr ?todos, ?s)"
    using load_session_csv [of ?rows] by simp
  have fmt: "StorageType (config ?s) \<noteq> lit ''txt''" by simp
  have h: "map_of PRIORITIES (lit ''h'') = Some (lit ''High'')"
    and o: "map_of PRIORITIES (lit ''o'') = Some (lit ''Optional'')"
    by (simp_all add: PRIORITIES_def)
  have fields: "\<forall>t \<in> set ?todos. \<forall>k \<in> set fieldnames. \<exists>v. getitem t k = Inr v \<and> encodable v"
    by (simp add: fieldnames_def)
  have lines: "listing (lit ''High'') ?todos =
      [lit ''(0) - a: x [Priority: High]'', lit ''(1) - c: z [Priority: High]'']"
    by (simp add: listing_def listed_line_def field_def enumerate_eq_zip show_nat.simps
        digit_char_def upt_rec lit_Cons)
  have none: "filter (\<lambda>t. field t (lit ''priority'') = lit ''Optional'') ?todos = []"
    by (simp add: field_def)
  have 1: "list_todos (Some (lit ''h'')) ?s =
      Completed (logging_info (lit ''Listed todos successfully.'')
        (?s\<lparr>stdout := stdout ?s @ listing (lit ''High'') ?todos\<rparr>))"
    using list_todos_filtered [OF load fmt h fields] by (rule conjunct1)
  have 2: "stdout (state_of (list_todos (Some (lit ''o'')) ?s)) = stdout ?s"
    using list_todos_filtered [OF load fmt o fields, THEN conjunct2] none by (rule mp)
  show ?thesis
    unfolding 1 2 lines by simp
qed

text \<open>
  C6 as stated fails in text mode: the entries are plain strings, and a filter that
  matches nothing still indexes the first of them.
\<close>

theorem list_todos_filter_no_match_on_text:
  "list_todos (Some (lit ''o''))
     (session (lit ''txt'') (Some (TxtFile (lit ''X: Y [Priority: High]'' @ [LF])))) =
   Uncaught TypeError (session (lit ''txt'') (Some (TxtFile (lit ''X: Y [Priority: High]'' @ [LF]))))
   \<and> stdout (state_of (list_todos (Some (lit ''o''))
        (session (lit ''txt'') (Some (TxtFile (lit ''X: Y [Priority: High]'' @ [LF])))))) = []"
proof -
  let ?s = "session (lit ''txt'') (Some (TxtFile (lit ''X: Y [Priority: High]'' @ [LF])))"
  have load: "load_todos (lit ''txt'') ?s = (Inr [Str (lit ''X: Y [Priority: High]'')], ?s)"
    using load_session_txt [of "lit ''X: Y [Priority: High]'' @ [LF]"] line_high by simp
  have key: "lit ''o'' \<in> set (map fst PRIORITIES)" by (simp add: PRIORITIES_def)
  show ?thesis
    using load key by (simp add: list_todos_def)
qed

text \<open>
  So does it on a json store with a record that has no \<open>priority\<close>: the lookup raises
  KeyError.
\<close>

lemma list_todos_record_without_priority:
  "list_todos (Some (lit ''o''))
     (session (lit ''json'') (Some (JsonFile [Dict [(lit ''name'', lit ''a'')]]))) =
   Uncaught KeyError (session (lit ''json'') (Some (JsonFile [Dict [(lit ''name'', lit ''a'')]])))"
proof -
  let ?s = "session (lit ''json'') (Some (JsonFile [Dict [(lit ''name'', lit ''a'')]]))"
  have "map json_value [Dict [(lit ''name'', lit ''a'')]] = [Dict [(lit ''name'', lit ''a'')]]"
    by (simp add: json_object_def lit_Cons high_surrogate_def)
  then have load: "load_todos (lit ''json'') ?s = (Inr [Dict [(lit ''name'', lit ''a'')]], ?s)"
    using load_session_json [of "[Dict [(lit ''name'', lit ''a'')]]"] by simp
  have key: "lit ''o'' \<in> set (map fst PRIORITIES)" by (simp add: PRIORITIES_def)
  show ?thesis
    using load key by (simp add: list_todos_def)
qed

subsection \<open>What json gives back\<close>

lemma merge_surrogates_id: "\<not> surrogate_pair s \<Longrightarrow> merge_surrogates s = s"
  by (induction s rule: merge_surrogates.induct) (auto split: if_splits)

lemma encodable_no_pair: "encodable s \<Longrightarrow> \<not> surrogate_pair s"
  by (induction s rule: surrogate_pair.induct) (auto simp: high_surrogate_def split: if_splits)

lemma lit_no_pair [simp]: "\<not> surrogate_pair (lit a)"
  by (rule encodable_no_pair) simp

lemma length_merge_surrogates: "length (merge_surrogates s) \<le> length s"
  by (induction s rule: merge_surrogates.induct) auto

lemma setitem_new: "key \<notin> fst ` set d \<Longrightarrow> setitem d key v = d @ [(key, v)]"
  by (induction d) auto

lemma json_object_fold:
  assumes "distinct (map fst (acc @ d))"
    and "list_all (\<lambda>(k, v). \<not> surrogate_pair k \<and> \<not> surrogate_pair v) d"
  shows "foldl (\<lambda>acc (k, v). setitem acc (merge_surrogates k) (merge_surrogates v)) acc d = acc @ d"
  using assms
proof (induction d arbitrary: acc)
  case Nil
  show ?case by simp
next
  case (Cons p d)
  obtain k v where p: "p = (k, v)" by (cases p)
  have plain: "merge_surrogates k = k" "merge_surrogates v = v"
    using Cons.prems(2) p by (simp_all add: merge_surrogates_id)
  have new: "k \<notin> fst ` set acc" using Cons.prems(1) p by auto
  have "distinct (map fst ((acc @ [(k, v)]) @ d))" using Cons.prems(1) p by simp
  moreover have "list_all (\<lambda>(k, v). \<not> surrogate_pair k \<and> \<not> surrogate_pair v) d"
    using Cons.prems(2) by simp
  ultimately have "foldl (\<lambda>acc (k, v). setitem acc (merge_surrogates k) (merge_surrogates v))
      (acc @ [(k, v)]) d = (acc @ [(k, v)]) @ d"
    by (rule Cons.IH)
  then show ?case using p plain setitem_new [OF new] by simp
qed

lemma json_value_plain: "json_plain t \<Longrightarrow> json_value t = t"
proof (cases t)
  case (Str s)
  assume "json_plain t"
  with Str show ?thesis by (simp add: merge_surrogates_id)
next
  case (Dict d)
  assume "json_plain t"
  with Dict show ?thesis using json_object_fold [of "[]" d] by (simp add: json_object_def)
qed


subsection \<open>What csv gives back\<close>



subsection \<open>What a text file gives back\<close>



lemma writelines_lines:
  "\<forall>l \<in> set ls. encodable l \<Longrightarrow>
   writelines printable (map Str ls) = (concat (map (\<lambda>l. l @ [LF]) ls), None)"
  by (induction ls) simp_all

subsection \<open>Saving, and loading what was saved\<close>

lemma fs_save_todos:
  "fs (save_todos X format s) =
     (fs s)(filename s \<mapsto>
           (if format = lit ''json'' then JsonFile X
            else if format = lit ''csv'' then CsvFile (map (zip fieldnames) (fst (writerows X)))
            else TxtFile (fst (writelines (isprintable (env s)) X))))"
  by (simp add: save_todos_def Let_def split: prod.splits option.splits)

lemma save_todos_keeps [simp]:
  "filename (save_todos todos format s) = filename s"
  "config (save_todos todos format s) = config s"
  "stdout (save_todos todos format s) = stdout s"
  "env (save_todos todos format s) = env s"
  by (simp_all add: save_todos_def Let_def split: prod.splits option.splits)




text \<open>
  The conditions of the json and csv cases are needed as well. In json, two surrogates
  side by side come back as one character; in csv, a field of 131073 characters is
  written, but the reader raises on it and the load returns the empty list.
\<close>

lemma json_surrogate_pair_merged:
  "load_todos (lit ''json'') (save_todos [Str [0xD83D, 0xDE00]] (lit ''json'') (session (lit ''json'') None))
     = (Inr [Str [0x1F600]],
        save_todos [Str [0xD83D, 0xDE00]] (lit ''json'') (session (lit ''json'') None))"
proof -
  let ?s1 = "save_todos [Str [0xD83D, 0xDE00]] (lit ''json'') (session (lit ''json'') None)"
  have "fs ?s1 (filename ?s1) = Some (JsonFile [Str [0xD83D, 0xDE00]])"
    by (simp add: fs_save_todos)
  then show ?thesis
    by (rule load_todos_existing) (simp add: decode_def high_surrogate_def low_surrogate_def)
qed

lemma encodable_replicate: "encodable [c] \<Longrightarrow> encodable (replicate n c)"
  by (induction n) (simp_all add: encodable_def)

lemma csv_long_field_lost:
  "fs (save_todos [Dict [(lit ''name'', replicate 131073 97), (lit ''description'', []),
                         (lit ''priority'', [])]] (lit ''csv'') (session (lit ''csv'') None))
        (lit ''todos'')
     = Some (CsvFile [[(lit ''name'', replicate 131073 97), (lit ''description'', []),
                       (lit ''priority'', [])]])
   \<and> fst (load_todos (lit ''csv'')
        (save_todos [Dict [(lit ''name'', replicate 131073 97), (lit ''description'', []),
                           (lit ''priority'', [])]] (lit ''csv'') (session (lit ''csv'') None)))
     = Inr []"
proof -
  let ?d = "[(lit ''name'', replicate 131073 97), (lit ''description'', []), (lit ''priority'', [])]"
  let ?s1 = "save_todos [Dict ?d] (lit ''csv'') (session (lit ''csv'') None)"
  have enc: "encodable (replicate 131073 97)"
    by (rule encodable_replicate) (simp add: encodable_def)
  then have row: "writerows [Dict ?d] = ([[replicate 131073 97, [], []]], None)"
    by (simp add: writerow_def fieldnames_def)
  have held: "fs ?s1 (lit ''todos'') = Some (CsvFile [?d])"
    using row by (simp add: fs_save_todos fieldnames_def)
  have "\<not> csv_readable [?d]" by (simp add: csv_readable_def)
  then have "read_todos (env ?s1) (lit ''csv'') (fs ?s1 (filename ?s1)) = Inl ParseError"
    using held by (simp add: read_todos_def decode_def)
  then have "fst (load_todos (lit ''csv'') ?s1) = Inr []"
    by (simp add: load_todos_def)
  with held show ?thesis by (rule conjI)
qed

subsection \<open>\<open>add_todo\<close>, then a load\<close>

lemma label_plain:
  assumes "map_of PRIORITIES key = Some label"
  shows "encodable label" and "length label \<le> 131072" and "\<forall>c \<in> set label. \<not> is_linebreak c"
    and "\<not> surrogate_pair label"
proof -
  from assms have "label \<in> {lit ''Optional'', lit ''Low'', lit ''Medium'', lit ''High'', lit ''Crucial''}"
    by (auto simp: PRIORITIES_def split: if_splits)
  then show "encodable label" and "length label \<le> 131072" and "\<not> surrogate_pair label"
    by auto
  have "\<forall>c \<in> set l. \<not> is_linebreak c"
    if "l \<in> {lit ''Optional'', lit ''Low'', lit ''Medium'', lit ''High'', lit ''Crucial''}" for l
    using that by (auto simp: lit_Cons is_linebreak_def)
  then show "\<forall>c \<in> set label. \<not> is_linebreak c"
    using \<open>label \<in> {lit ''Optional'', lit ''Low'', lit ''Medium'', lit ''High'', lit ''Crucial''}\<close>
    by blast
qed

lemma field_readable:
  assumes "list_all (\<lambda>(k, v). length k \<le> 131072 \<and> length v \<le> 131072
                            \<and> encodable k \<and> encodable v) d"
  shows "length (field (Dict d) k) \<le> 131072 \<and> encodable (field (Dict d) k)"
proof (cases "map_of d k")
  case None
  then show ?thesis by (simp add: field_def)
next
  case (Some v)
  then have "(k, v) \<in> set d" by (rule map_of_SomeD)
  with assms have "length v \<le> 131072 \<and> encodable v" by (auto simp: list_all_iff)
  with Some show ?thesis by (simp add: field_def)
qed

lemma csv_readable_map:
  "(\<And>t. t \<in> set X \<Longrightarrow>
      list_all (\<lambda>(k, v). length k \<le> 131072 \<and> length v \<le> 131072 \<and> encodable k \<and> encodable v)
        (f t)) \<Longrightarrow>
   csv_readable (map f X)"
  by (induction X) (simp_all add: csv_readable_def)

lemma loaded_row_writable:
  assumes "csv_readable rows" and "d \<in> set rows" and "dict_to_list (Dict d) = Inr r"
  shows "writerow (Dict d) = Inr r"
proof -
  have "list_all encodable r"
    using assms by (intro readable_row_encodable [of d r]) (auto simp: csv_readable_def list_all_iff)
  with assms(3) show ?thesis by (simp add: writerow_def)
qed

lemma saved_lines_decode:
  assumes "format \<noteq> lit ''json''" and "format \<noteq> lit ''csv''"
    and "\<forall>l \<in> set ls. encodable l \<and> (\<forall>c \<in> set l. \<not> is_linebreak c)"
  shows "decode e format (TxtFile (concat (map (\<lambda>l. l @ [LF]) ls))) = Inr (map Str ls)"
proof -
  let ?chars = "concat (map (\<lambda>l. l @ [LF]) ls)"
  have enc: "encodable ?chars" using assms(3) by (induction ls) simp_all
  have "CR \<notin> set ?chars" using assms(3) is_linebreak_CR by auto
  then have "universal_newlines ?chars = ?chars" by (rule universal_newlines_id)
  moreover have "splitlines ?chars = ls" using assms(3) by (intro splitlines_unlines) blast
  ultimately show ?thesis using assms(1,2) enc by (simp add: decode_def)
qed

lemma add_todo_saves:
  assumes "load_todos (StorageType (config s)) s = (Inr todos, s1)"
    and "map_of PRIORITIES (case priority of None \<Rightarrow> lit ''m'' | Some k \<Rightarrow> k) = Some label"
  shows "add_todo name description priority s =
     Completed (logging_info (lit ''Added new todo.'')
       (save_todos
          (todos @ [if StorageType (config s) = lit ''txt''
                    then Str (name @ lit '': '' @ description @ lit '' [Priority: '' @ label @ lit '']'')
                    else Dict [(lit ''name'', name), (lit ''description'', description),
                               (lit ''priority'', label)]])
          (StorageType (config s)) s1))"
proof -
  have "(case priority of None \<Rightarrow> lit ''m'' | Some k \<Rightarrow> k) \<in> set (map fst PRIORITIES)"
    using assms(2) by (rule priority_key)
  then show ?thesis using assms by (simp add: add_todo_def Let_def)
qed

text \<open>
  The store after \<open>add_todo\<close>, loaded again: one entry more, the last one being the
  new one. The conditions are those under which the format gives back what was written.
\<close>

lemma add_todo_reload:
  assumes load: "load_todos (StorageType (config s)) s = (Inr todos, s1)"
    and format: "StorageType (config s) \<in> {lit ''json'', lit ''csv'', lit ''txt''}"
    and label: "map_of PRIORITIES (case priority of None \<Rightarrow> lit ''m'' | Some k \<Rightarrow> k) = Some label"
    and hyp_json: "StorageType (config s) = lit ''json'' \<longrightarrow>
        \<not> surrogate_pair name \<and> \<not> surrogate_pair description"
    and hyp_csv: "StorageType (config s) = lit ''csv'' \<longrightarrow>
        (\<forall>t \<in> set todos. \<exists>r. dict_to_list t = Inr r)
        \<and> encodable name \<and> length name \<le> 131072
        \<and> encodable description \<and> length description \<le> 131072"
    and hyp_txt: "StorageType (config s) = lit ''txt'' \<longrightarrow>
        encodable name \<and> (\<forall>c \<in> set name. \<not> is_linebreak c)
        \<and> encodable description \<and> (\<forall>c \<in> set description. \<not> is_linebreak c)"
  shows "\<exists>s2 todos2.
      add_todo name description priority s = Completed s2
      \<and> load_todos (StorageType (config s)) s2 = (Inr todos2, s2)
      \<and> length todos2 = length todos + 1
      \<and> last todos2 =
          (if StorageType (config s) = lit ''txt''
           then Str (name @ lit '': '' @ description @ lit '' [Priority: '' @ label @ lit '']'')
           else Dict [(lit ''name'', name), (lit ''description'', description),
                      (lit ''priority'', label)])
      \<and> config s2 = config s \<and> env s2 = env s \<and> stdout s2 = stdout s"
proof -
  let ?format = "StorageType (config s)"
  let ?line = "name @ lit '': '' @ description @ lit '' [Priority: '' @ label @ lit '']''"
  let ?fields = "[(lit ''name'', name), (lit ''description'', description), (lit ''priority'', label)]"
  let ?new = "if ?format = lit ''txt'' then Str ?line else Dict ?fields"
  let ?s2 = "logging_info (lit ''Added new todo.'') (save_todos (todos @ [?new]) ?format s1)"
  note keeps = load_todos_keeps [OF load]
  note lab = label_plain [OF label]
  have added: "add_todo name description priority s = Completed ?s2"
    using load label by (rule add_todo_saves)
  have same: "config ?s2 = config s" "env ?s2 = env s" "stdout ?s2 = stdout s"
    using keeps by simp_all
  have held: "fs ?s2 (filename ?s2) =
      Some (if ?format = lit ''json'' then JsonFile (todos @ [?new])
            else if ?format = lit ''csv''
            then CsvFile (map (zip fieldnames) (fst (writerows (todos @ [?new]))))
            else TxtFile (fst (writelines (isprintable (env s1)) (todos @ [?new]))))"
    by (simp add: fs_save_todos)
  consider (in_json) "?format = lit ''json''" | (in_csv) "?format = lit ''csv''"
    | (in_txt) "?format = lit ''txt''"
    using format by auto
  then have "\<exists>todos2. load_todos ?format ?s2 = (Inr todos2, ?s2)
      \<and> length todos2 = length todos + 1 \<and> last todos2 = ?new"
  proof cases
    case in_json
    then have new: "?new = Dict ?fields" by simp
    have "json_plain (Dict ?fields)" using in_json hyp_json lab(4) by simp
    then have plain: "json_value (Dict ?fields) = Dict ?fields" by (rule json_value_plain)
    have "decode (env ?s2) ?format (JsonFile (todos @ [?new])) = Inr (map json_value (todos @ [?new]))"
      using in_json by (simp add: decode_def)
    then have "load_todos ?format ?s2 = (Inr (map json_value (todos @ [?new])), ?s2)"
      using held in_json by (intro load_todos_existing) simp_all
    moreover have "last (map json_value (todos @ [?new])) = ?new"
      unfolding new using plain by simp
    ultimately show ?thesis by auto
  next
    case in_csv
    then have new: "?new = Dict ?fields" by simp
    from in_csv hyp_csv have accepted: "\<forall>t \<in> set todos. \<exists>r. dict_to_list t = Inr r"
      and input: "encodable name" "length name \<le> 131072"
        "encodable description" "length description \<le> 131072"
      by simp_all
    obtain rows where rows: "todos = map Dict rows" "csv_readable rows"
      using load_todos_csv load in_csv by metis
    have "\<exists>r. writerow t = Inr r" if "t \<in> set todos" for t
    proof -
      from that rows(1) obtain d where d: "t = Dict d" "d \<in> set rows" by auto
      from that accepted obtain r where "dict_to_list t = Inr r" by blast
      then have "writerow (Dict d) = Inr r" using rows(2) d by (intro loaded_row_writable) simp_all
      then show ?thesis using d(1) by blast
    qed
    moreover have "writerow (Dict ?fields) = Inr [name, description, label]"
      using input lab(1) by (simp add: writerow_def fieldnames_def)
    ultimately have "\<forall>t \<in> set (todos @ [Dict ?fields]). \<exists>r. writerow t = Inr r" by auto
    then have written: "writerows (todos @ [Dict ?fields]) =
        (map (\<lambda>t. map (field t) fieldnames) (todos @ [Dict ?fields]), None)"
      by (rule writerows_accepted)
    let ?rows2 = "map (\<lambda>t. map (\<lambda>k. (k, field t k)) fieldnames) (todos @ [Dict ?fields])"
    have content: "map (zip fieldnames) (fst (writerows (todos @ [?new]))) = ?rows2"
      unfolding new written by (simp add: zip_fieldnames comp_def)
    have "list_all (\<lambda>(k, v). length k \<le> 131072 \<and> length v \<le> 131072 \<and> encodable k \<and> encodable v)
        (map (\<lambda>k. (k, field t k)) fieldnames)" if "t \<in> set (todos @ [Dict ?fields])" for t
    proof (cases "t = Dict ?fields")
      case True
      then show ?thesis using input lab(1,2) by (simp add: fieldnames_def field_def)
    next
      case False
      with that rows(1) obtain d where d: "t = Dict d" "d \<in> set rows" by auto
      then have "list_all (\<lambda>(k, v). length k \<le> 131072 \<and> length v \<le> 131072
          \<and> encodable k \<and> encodable v) d"
        using rows(2) by (simp add: csv_readable_def list_all_iff)
      then have "length (field t k) \<le> 131072 \<and> encodable (field t k)" for k
        unfolding d(1) by (rule field_readable)
      then show ?thesis by (simp add: fieldnames_def)
    qed
    then have "csv_readable ?rows2" by (rule csv_readable_map)
    then have "decode (env ?s2) ?format (CsvFile ?rows2) = Inr (map Dict ?rows2)"
      using in_csv by (simp add: decode_def)
    then have "load_todos ?format ?s2 = (Inr (map Dict ?rows2), ?s2)"
      using held in_csv content by (intro load_todos_existing) simp_all
    moreover have "last (map Dict ?rows2) = ?new"
      unfolding new by (simp add: fieldnames_def field_def)
    ultimately show ?thesis by auto
  next
    case in_txt
    then have new: "?new = Str ?line" and other: "?format \<noteq> lit ''json''" "?format \<noteq> lit ''csv''"
      by simp_all
    from in_txt hyp_txt have input: "encodable name" "\<forall>c \<in> set name. \<not> is_linebreak c"
        "encodable description" "\<forall>c \<in> set description. \<not> is_linebreak c"
      by simp_all
    obtain ls where ls: "todos = map Str ls"
      "\<forall>l \<in> set ls. encodable l \<and> (\<forall>c \<in> set l. \<not> is_linebreak c)"
      using load_todos_text [OF load other] by blast
    have "\<forall>c \<in> set (lit '': '' @ lit '' [Priority: '' @ lit '']''). \<not> is_linebreak c"
      by (simp add: lit_Cons is_linebreak_def)
    then have line: "encodable ?line" "\<forall>c \<in> set ?line. \<not> is_linebreak c"
      using input lab(1,3) by auto
    then have all: "\<forall>l \<in> set (ls @ [?line]). encodable l \<and> (\<forall>c \<in> set l. \<not> is_linebreak c)"
      using ls(2) by auto
    have lists: "todos @ [?new] = map Str (ls @ [?line])" unfolding new ls(1) by simp
    have "\<forall>l \<in> set (ls @ [?line]). encodable l" using all by blast
    then have "writelines (isprintable (env s1)) (map Str (ls @ [?line])) =
        (concat (map (\<lambda>l. l @ [LF]) (ls @ [?line])), None)"
      by (rule writelines_lines)
    then have content: "fst (writelines (isprintable (env s1)) (todos @ [?new])) =
        concat (map (\<lambda>l. l @ [LF]) (ls @ [?line]))"
      unfolding lists by simp
    have "decode (env ?s2) ?format (TxtFile (concat (map (\<lambda>l. l @ [LF]) (ls @ [?line])))) =
        Inr (map Str (ls @ [?line]))"
      using other all by (rule saved_lines_decode)
    then have "load_todos ?format ?s2 = (Inr (map Str (ls @ [?line])), ?s2)"
      using held other content by (intro load_todos_existing) simp_all
    moreover have "last (map Str (ls @ [?line])) = ?new" unfolding new by simp
    moreover have "length (map Str (ls @ [?line])) = length todos + 1" unfolding ls(1) by simp
    ultimately show ?thesis by blast
  qed
  with added same show ?thesis by blast
qed

text \<open>
  C5, as the code has it: with the storage type json, csv or txt, \<open>add_todo\<close> followed
  by a load gives a list one longer than the stored one, whose last entry is built from
  the input with the display name of the priority key (\<open>Medium\<close> when the key is
  omitted): the record of the three fields in json and csv, the line
  \<open>name: description [Priority: label]\<close> in text mode. In json the name and the
  description must have no high surrogate directly before a low one; in csv the stored
  rows must have no column but the three, and the name and the description must be
  encodable in UTF-8 and at most 131072 characters long; in text mode the name and the
  description must be encodable in UTF-8 and have no line boundary in them.
\<close>

theorem add_todo_then_load:
  assumes "load_todos (StorageType (config s)) s = (Inr todos, s1)"
    and "StorageType (config s) \<in> {lit ''json'', lit ''csv'', lit ''txt''}"
    and "map_of PRIORITIES (case priority of None \<Rightarrow> lit ''m'' | Some k \<Rightarrow> k) = Some label"
    and "StorageType (config s) = lit ''json'' \<longrightarrow>
        \<not> surrogate_pair name \<and> \<not> surrogate_pair description"
    and "StorageType (config s) = lit ''csv'' \<longrightarrow>
        (\<forall>t \<in> set todos. \<exists>r. dict_to_list t = Inr r)
        \<and> encodable name \<and> length name \<le> 131072
        \<and> encodable description \<and> length description \<le> 131072"
    and "StorageType (config s) = lit ''txt'' \<longrightarrow>
        encodable name \<and> (\<forall>c \<in> set name. \<not> is_linebreak c)
        \<and> encodable description \<and> (\<forall>c \<in> set description. \<not> is_linebreak c)"
  shows "\<exists>s2 todos2.
      add_todo name description priority s = Completed s2
      \<and> load_todos (StorageType (config s)) s2 = (Inr todos2, s2)
      \<and> length todos2 = length todos + 1
      \<and> last todos2 =
          (if StorageType (config s) = lit ''txt''
           then Str (name @ lit '': '' @ description @ lit '' [Priority: '' @ label @ lit '']'')
           else Dict [(lit ''name'', name), (lit ''description'', description),
                      (lit ''priority'', label)])
      \<and> (priority = None \<longrightarrow> label = lit ''Medium'')"
proof -
  have "priority = None \<longrightarrow> label = lit ''Medium''"
    using assms(3) by (auto simp: PRIORITIES_def)
  with add_todo_reload [OF assms] show ?thesis by blast
qed

lemma one_element: "length xs = 1 \<Longrightarrow> xs = [last xs]"
  by (cases xs) auto

theorem add_todo_then_load_witness:
  "\<exists>s2 todos2.
      add_todo (lit ''X'') (lit ''Y'') None
        (session (lit ''csv'') (Some (CsvFile
            [[(lit ''name'', lit ''a''), (lit ''description'', lit ''b''), (lit ''priority'', lit ''Low'')]])))
        = Completed s2
      \<and> load_todos (lit ''csv'') s2 = (Inr todos2, s2)
      \<and> length todos2 = 2
      \<and> last todos2 = Dict [(lit ''name'', lit ''X''), (lit ''description'', lit ''Y''),
                            (lit ''priority'', lit ''Medium'')]"
proof -
  let ?rows = "[[(lit ''name'', lit ''a''), (lit ''description'', lit ''b''), (lit ''priority'', lit ''Low'')]]"
  let ?s = "session (lit ''csv'') (Some (CsvFile ?rows))"
  have "csv_readable ?rows" by (simp add: csv_readable_def)
  then have 1: "load_todos (StorageType (config ?s)) ?s = (Inr (map Dict ?rows), ?s)"
    using load_session_csv [of ?rows] by simp
  have 2: "StorageType (config ?s) \<in> {lit ''json'', lit ''csv'', lit ''txt''}" by simp
  have 3: "map_of PRIORITIES (case None of None \<Rightarrow> lit ''m'' | Some k \<Rightarrow> k) = Some (lit ''Medium'')"
    by (simp add: PRIORITIES_def)
  have 4: "StorageType (config ?s) = lit ''json'' \<longrightarrow>
      \<not> surrogate_pair (lit ''X'') \<and> \<not> surrogate_pair (lit ''Y'')"
    by simp
  have 5: "StorageType (config ?s) = lit ''csv'' \<longrightarrow>
      (\<forall>t \<in> set (map Dict ?rows). \<exists>r. dict_to_list t = Inr r)
      \<and> encodable (lit ''X'') \<and> length (lit ''X'') \<le> 131072
      \<and> encodable (lit ''Y'') \<and> length (lit ''Y'') \<le> 131072"
    by (simp add: fieldnames_def)
  have 6: "StorageType (config ?s) = lit ''txt'' \<longrightarrow>
      encodable (lit ''X'') \<and> (\<forall>c \<in> set (lit ''X''). \<not> is_linebreak c)
      \<and> encodable (lit ''Y'') \<and> (\<forall>c \<in> set (lit ''Y''). \<not> is_linebreak c)"
    by simp
  from add_todo_then_load [OF 1 2 3 4 5 6] show ?thesis by (simp add: numeral_2_eq_2)
qed

text \<open>
  C5 as stated fails in text mode: a name with a newline in it is saved as two lines, and
  the load after the add on an empty store returns two entries.
\<close>

theorem add_todo_name_with_newline:
  "fst (load_todos (lit ''txt'') (session (lit ''txt'') None)) = Inr []
   \<and> fst (load_todos (lit ''txt'')
        (state_of (add_todo (lit ''a'' @ [LF] @ lit ''b'') (lit ''Y'') None (session (lit ''txt'') None))))
     = Inr [Str (lit ''a''), Str (lit ''b: Y [Priority: Medium]'')]"
proof -
  let ?s = "session (lit ''txt'') None"
  let ?s1 = "logging_info (lit ''No todo file found, starting a new one.'') ?s"
  let ?line = "lit ''a'' @ [LF] @ lit ''b'' @ lit '': '' @ lit ''Y'' @ lit '' [Priority: ''
      @ lit ''Medium'' @ lit '']''"
  let ?s2 = "logging_info (lit ''Added new todo.'') (save_todos [Str ?line] (lit ''txt'') ?s1)"
  have load: "load_todos (StorageType (config ?s)) ?s = (Inr [], ?s1)"
    using load_todos_missing [of ?s "lit ''txt''"] by simp
  have m: "map_of PRIORITIES (case None of None \<Rightarrow> lit ''m'' | Some k \<Rightarrow> k) = Some (lit ''Medium'')"
    by (simp add: PRIORITIES_def)
  have added: "add_todo (lit ''a'' @ [LF] @ lit ''b'') (lit ''Y'') None ?s = Completed ?s2"
    using add_todo_saves [OF load m, of "lit ''a'' @ [LF] @ lit ''b''" "lit ''Y''"] by simp
  have lines: "splitlines (universal_newlines (?line @ [LF])) =
      [lit ''a'', lit ''b: Y [Priority: Medium]'']"
    by (simp add: lit_Cons is_linebreak_def)
  have "fs ?s2 (filename ?s2) = Some (TxtFile (?line @ [LF]))"
    by (simp add: fs_save_todos)
  then have "load_todos (lit ''txt'') ?s2 =
      (Inr [Str (lit ''a''), Str (lit ''b: Y [Priority: Medium]'')], ?s2)"
    by (rule load_todos_existing) (insert lines, simp add: decode_def)
  then show ?thesis using added load by simp
qed

text \<open>
  The other conditions are needed as well. In text mode a name with a character that
  UTF-8 cannot encode (a lone surrogate, as an undecodable byte of the command line
  becomes) makes the save fail, and the store is left empty; in csv a name of 131073
  characters is saved but makes the next load fail.
\<close>

lemma add_todo_unencodable_name:
  "fst (load_todos (lit ''txt'')
        (state_of (add_todo [0xDCFF] (lit ''Y'') None (session (lit ''txt'') None))))
     = Inr []"
proof -
  let ?s = "session (lit ''txt'') None"
  let ?s1 = "logging_info (lit ''No todo file found, starting a new one.'') ?s"
  let ?line = "[0xDCFF] @ lit '': '' @ lit ''Y'' @ lit '' [Priority: '' @ lit ''Medium'' @ lit '']''"
  let ?s2 = "logging_info (lit ''Added new todo.'') (save_todos [Str ?line] (lit ''txt'') ?s1)"
  have load: "load_todos (StorageType (config ?s)) ?s = (Inr [], ?s1)"
    using load_todos_missing [of ?s "lit ''txt''"] by simp
  have m: "map_of PRIORITIES (case None of None \<Rightarrow> lit ''m'' | Some k \<Rightarrow> k) = Some (lit ''Medium'')"
    by (simp add: PRIORITIES_def)
  have added: "add_todo [0xDCFF] (lit ''Y'') None ?s = Completed ?s2"
    using add_todo_saves [OF load m, of "[0xDCFF]" "lit ''Y''"] by simp
  have "\<not> encodable ?line" by (simp add: encodable_def)
  then have "fs ?s2 (filename ?s2) = Some (TxtFile [])"
    by (simp add: fs_save_todos)
  then have "load_todos (lit ''txt'') ?s2 = (Inr [], ?s2)"
    by (rule load_todos_existing) (simp add: decode_def)
  then show ?thesis using added by simp
qed

subsection \<open>\<open>add_todo\<close>, then \<open>list_todos\<close>\<close>

lemma add_then_list:
  assumes "StorageType (config s) = format"
    and "format \<in> {lit ''json'', lit ''csv'', lit ''txt''}"
    and "load_todos format s = (Inr [], s1)"
  shows "\<exists>s'. and_then (add_todo (lit ''X'') (lit ''Y'') (Some (lit ''h'')) s) (list_todos None)
              = Completed s'
           \<and> stdout s' = stdout s @ [lit ''(0) - X: Y [Priority: High]'']"
proof -
  let ?new = "if format = lit ''txt''
      then Str (lit ''X'' @ lit '': '' @ lit ''Y'' @ lit '' [Priority: '' @ lit ''High'' @ lit '']'')
      else Dict [(lit ''name'', lit ''X''), (lit ''description'', lit ''Y''),
                 (lit ''priority'', lit ''High'')]"
  have 1: "load_todos (StorageType (config s)) s = (Inr [], s1)" using assms(1,3) by simp
  have 2: "StorageType (config s) \<in> {lit ''json'', lit ''csv'', lit ''txt''}" using assms(1,2) by simp
  have 3: "map_of PRIORITIES (case Some (lit ''h'') of None \<Rightarrow> lit ''m'' | Some k \<Rightarrow> k)
      = Some (lit ''High'')"
    by (simp add: PRIORITIES_def)
  have 4: "StorageType (config s) = lit ''json'' \<longrightarrow>
      \<not> surrogate_pair (lit ''X'') \<and> \<not> surrogate_pair (lit ''Y'')"
    by simp
  have 5: "StorageType (config s) = lit ''csv'' \<longrightarrow>
      (\<forall>t \<in> set []. \<exists>r. dict_to_list t = Inr r)
      \<and> encodable (lit ''X'') \<and> length (lit ''X'') \<le> 131072
      \<and> encodable (lit ''Y'') \<and> length (lit ''Y'') \<le> 131072"
    by simp
  have 6: "StorageType (config s) = lit ''txt'' \<longrightarrow>
      encodable (lit ''X'') \<and> (\<forall>c \<in> set (lit ''X''). \<not> is_linebreak c)
      \<and> encodable (lit ''Y'') \<and> (\<forall>c \<in> set (lit ''Y''). \<not> is_linebreak c)"
    by (simp add: lit_Cons is_linebreak_def)
  from add_todo_reload [OF 1 2 3 4 5 6] assms(1)
  obtain s2 todos2 where added: "add_todo (lit ''X'') (lit ''Y'') (Some (lit ''h'')) s = Completed s2"
    and load2: "load_todos format s2 = (Inr todos2, s2)"
    and len: "length todos2 = 1"
    and new: "last todos2 = ?new"
    and same: "config s2 = config s" "stdout s2 = stdout s"
    by auto
  have todos2: "todos2 = [?new]" using one_element [OF len] new by simp
  have fmt2: "StorageType (config s2) = format" using same(1) assms(1) by simp
  have line: "todo_line (isprintable (env s2)) format 0 ?new
      = Inr (lit ''(0) - X: Y [Priority: High]'')"
    by (simp add: todo_line_def show_nat.simps digit_char_def lit_Cons)
  have echo: "click_echo (lit ''(0) - X: Y [Priority: High]'') s2
      = Inr (s2\<lparr>stdout := stdout s2 @ [lit ''(0) - X: Y [Priority: High]'']\<rparr>)"
    by (rule click_echo_encodable) simp
  have "list_todos None s2 = finish_listing (echo_todos format 0 [?new] s2)"
    unfolding list_todos_def fmt2 using load2 todos2 by simp
  also have "\<dots> = Completed (logging_info (lit ''Listed todos successfully.'')
        (s2\<lparr>stdout := stdout s2 @ [lit ''(0) - X: Y [Priority: High]'']\<rparr>))"
    using line echo by (simp add: finish_listing_def)
  finally have "list_todos None s2 = Completed (logging_info (lit ''Listed todos successfully.'')
        (s2\<lparr>stdout := stdout s2 @ [lit ''(0) - X: Y [Priority: High]'']\<rparr>))" .
  then show ?thesis using added same(2) by (simp add: and_then_def)
qed

text \<open>
  C2, as the code has it: on an empty store, in each of the three formats, \<open>add_todo\<close>
  with key \<open>h\<close>, name \<open>X\<close> and description \<open>Y\<close> followed by \<open>list_todos\<close> echoes exactly
  the line \<open>(0) - X: Y [Priority: High]\<close>: the key \<open>h\<close> is \<open>High\<close> in \<open>PRIORITIES\<close>.
\<close>

theorem add_high_then_list:
  assumes "StorageType (config s) = format"
    and "format \<in> {lit ''json'', lit ''csv'', lit ''txt''}"
    and "fst (load_todos format s) = Inr []"
  shows "\<exists>s'. and_then (add_todo (lit ''X'') (lit ''Y'') (Some (lit ''h'')) s) (list_todos None)
              = Completed s'
           \<and> stdout s' = stdout s @ [lit ''(0) - X: Y [Priority: High]'']"
proof -
  obtain s1 where "load_todos format s = (Inr [], s1)"
    using assms(3) by (cases "load_todos format s") simp
  with assms(1,2) show ?thesis by (rule add_then_list)
qed

theorem add_high_then_list_witness:
  "\<exists>s'. and_then (add_todo (lit ''X'') (lit ''Y'') (Some (lit ''h'')) (session (lit ''csv'') None))
            (list_todos None) = Completed s'
         \<and> stdout s' = [lit ''(0) - X: Y [Priority: High]'']"
proof -
  have 1: "StorageType (config (session (lit ''csv'') None)) = lit ''csv''" by simp
  have 2: "lit ''csv'' \<in> {lit ''json'', lit ''csv'', lit ''txt''}" by simp
  have 3: "fst (load_todos (lit ''csv'') (session (lit ''csv'') None)) = Inr []"
    by (simp add: load_todos_missing)
  from add_high_then_list [OF 1 2 3] show ?thesis by simp
qed

text \<open>C2 as stated names the label \<open>Crucial\<close>, which is the label of the key \<open>c\<close>.\<close>

theorem add_high_then_list_not_crucial:
  "stdout (state_of (and_then (add_todo (lit ''X'') (lit ''Y'') (Some (lit ''h''))
                                 (session (lit ''json'') None))
                       (list_todos None)))
     = [lit ''(0) - X: Y [Priority: High]'']
   \<and> stdout (state_of (and_then (add_todo (lit ''X'') (lit ''Y'') (Some (lit ''h''))
                                 (session (lit ''json'') None))
                       (list_todos None)))
     \<noteq> [lit ''(0) - X: Y [Priority: Crucial]'']"
proof -
  have 1: "StorageType (config (session (lit ''json'') None)) = lit ''json''" by simp
  have 2: "lit ''json'' \<in> {lit ''json'', lit ''csv'', lit ''txt''}" by simp
  have 3: "load_todos (lit ''json'') (session (lit ''json'') None) =
      (Inr [], logging_info (lit ''No todo file found, starting a new one.'') (session (lit ''json'') None))"
    by (simp add: load_todos_missing)
  from add_then_list [OF 1 2 3]
  obtain s' where "and_then (add_todo (lit ''X'') (lit ''Y'') (Some (lit ''h''))
        (session (lit ''json'') None)) (list_todos None) = Completed s'"
    and "stdout s' = [lit ''(0) - X: Y [Priority: High]'']"
    by auto
  then show ?thesis by simp
qed

end
